theory Spec2Isabelle
  imports Main
begin

section \<open>Time codec (script: formatTime, parseTime, msToString)\<close>

text \<open>
  Millisecond counts are modelled as \<open>int\<close> (the session's \<open>elapsedMs\<close> and
  \<open>countdownTargetMs\<close> are whole numbers of milliseconds in the data model).
  A JavaScript string is a \<open>string\<close>, each \<open>char\<close> read as one code unit below 256.
\<close>

definition MS_PER_SECOND :: int where
  "MS_PER_SECOND = 1000"

definition MS_PER_MINUTE :: int where
  "MS_PER_MINUTE = 60 * MS_PER_SECOND"

definition MS_PER_HOUR :: int where
  "MS_PER_HOUR = 60 * MS_PER_MINUTE"

definition CENTISECONDS_PER_SECOND :: int where
  "CENTISECONDS_PER_SECOND = 100"

text \<open>The remainder operator \<open>%\<close> of JavaScript: the result has the sign of the dividend.\<close>

definition js_rem :: "int \<Rightarrow> int \<Rightarrow> int" where
  "js_rem a b = sgn a * (\<bar>a\<bar> mod \<bar>b\<bar>)"

definition is_digit :: "char \<Rightarrow> bool" where
  "is_digit c \<longleftrightarrow> c \<in> set ''0123456789''"

definition digit_char :: "nat \<Rightarrow> char" where
  "digit_char d = ''0123456789'' ! d"

definition digit_val :: "char \<Rightarrow> nat" where
  "digit_val c = length (takeWhile (\<lambda>x. x \<noteq> c) ''0123456789'')"

text \<open>\<open>String(n)\<close> for an integer \<open>n\<close>: its decimal digits, with a minus sign when negative.\<close>

fun digits :: "nat \<Rightarrow> string" where
  "digits n = (if n < 10 then [digit_char n] else digits (n div 10) @ [digit_char (n mod 10)])"

definition String_of :: "int \<Rightarrow> string" where
  "String_of n = (if n < 0 then CHR ''-'' # digits (nat (- n)) else digits (nat n))"

text \<open>\<open>s.padStart(n, c)\<close> for a one-character pad \<open>c\<close>.\<close>

definition padStart :: "nat \<Rightarrow> char \<Rightarrow> string \<Rightarrow> string" where
  "padStart n c s = replicate (n - length s) c @ s"

record time_parts =
  hh :: string
  mm :: string
  ss :: string
  cc :: string

definition formatTime :: "int \<Rightarrow> time_parts" where
  "formatTime ms =
     (let totalCs = ms div 10;
          cs = js_rem totalCs CENTISECONDS_PER_SECOND;
          totalSeconds = totalCs div CENTISECONDS_PER_SECOND;
          seconds = js_rem totalSeconds 60;
          totalMinutes = totalSeconds div 60;
          minutes = js_rem totalMinutes 60;
          hours = totalMinutes div 60
      in \<lparr> hh = padStart 2 CHR ''0'' (String_of hours),
           mm = padStart 2 CHR ''0'' (String_of minutes),
           ss = padStart 2 CHR ''0'' (String_of seconds),
           cc = padStart 2 CHR ''0'' (String_of cs) \<rparr>)"

definition msToString :: "int \<Rightarrow> string" where
  "msToString ms =
     (let p = formatTime ms in hh p @ '':'' @ mm p @ '':'' @ ss p @ ''.'' @ cc p)"

text \<open>
  \<open>str.trim()\<close> removes white space and line terminators at both ends; among code
  units below 256 these are TAB, LF, VT, FF, CR, SPACE and NBSP.
\<close>

definition is_space :: "char \<Rightarrow> bool" where
  "is_space c \<longleftrightarrow> (of_char c :: nat) \<in> {9, 10, 11, 12, 13, 32, 160}"

definition trim :: "string \<Rightarrow> string" where
  "trim s = rev (dropWhile is_space (rev (dropWhile is_space s)))"

text \<open>
  The pattern \<open>/^(\d{1,2}):(\d{1,2}):(\d{1,2})\.(\d{1,2})$/\<close>. A group \<open>(\d{1,2})\<close>
  takes two digits when it can and one otherwise; the character that has to follow it
  is never a digit, so taking fewer never helps and the matcher needs no backtracking.
  \<open>match_pattern\<close> returns the four captured groups, \<open>None\<close> for no match.
\<close>

fun digits_1_2 :: "string \<Rightarrow> (string \<times> string) option" where
  "digits_1_2 (a # b # rest) =
     (if is_digit a then (if is_digit b then Some ([a, b], rest) else Some ([a], b # rest))
      else None)"
| "digits_1_2 [a] = (if is_digit a then Some ([a], []) else None)"
| "digits_1_2 [] = None"

fun expect :: "char \<Rightarrow> string \<Rightarrow> string option" where
  "expect c [] = None"
| "expect c (x # xs) = (if x = c then Some xs else None)"

definition match_pattern :: "string \<Rightarrow> (string \<times> string \<times> string \<times> string) option" where
  "match_pattern s =
     (case digits_1_2 s of None \<Rightarrow> None | Some (g1, r1) \<Rightarrow>
     (case expect CHR '':'' r1 of None \<Rightarrow> None | Some r2 \<Rightarrow>
     (case digits_1_2 r2 of None \<Rightarrow> None | Some (g2, r3) \<Rightarrow>
     (case expect CHR '':'' r3 of None \<Rightarrow> None | Some r4 \<Rightarrow>
     (case digits_1_2 r4 of None \<Rightarrow> None | Some (g3, r5) \<Rightarrow>
     (case expect CHR ''.'' r5 of None \<Rightarrow> None | Some r6 \<Rightarrow>
     (case digits_1_2 r6 of None \<Rightarrow> None | Some (g4, r7) \<Rightarrow>
        if r7 = [] then Some (g1, g2, g3, g4) else None)))))))"

text \<open>
  \<open>parseInt(s, 10)\<close>: leading white space is skipped, a sign is read, then the longest
  run of decimal digits; \<open>None\<close> stands for \<open>NaN\<close> (no digit found).
  \<open>decimal\<close> is the value of a digit string.
\<close>

definition decimal :: "string \<Rightarrow> int" where
  "decimal ds = foldl (\<lambda>acc c. 10 * acc + int (digit_val c)) 0 ds"

definition parseInt10 :: "string \<Rightarrow> int option" where
  "parseInt10 s =
     (let t = dropWhile is_space s;
          neg = (t \<noteq> [] \<and> hd t = CHR ''-'');
          u = (if t \<noteq> [] \<and> (hd t = CHR ''-'' \<or> hd t = CHR ''+'') then tl t else t);
          ds = takeWhile is_digit u
      in if ds = [] then None else Some ((if neg then - 1 else 1) * decimal ds))"

text \<open>
  \<open>parseTime\<close> returns \<open>None\<close> for \<open>null\<close>. After a match every group is a
  non-empty digit string, so no \<open>parseInt\<close> yields \<open>NaN\<close> (lemma
  \<open>match_pattern_parseInt10\<close>); the last case only makes the function total.
\<close>

definition parseTime :: "string \<Rightarrow> int option" where
  "parseTime str =
     (case match_pattern (trim str) of
        None \<Rightarrow> None
      | Some (g1, g2, g3, g4) \<Rightarrow>
          (case (parseInt10 g1, parseInt10 g2, parseInt10 g3, parseInt10 g4) of
             (Some hours, Some minutes, Some seconds, Some centiseconds) \<Rightarrow>
               if minutes \<ge> 60 \<or> seconds \<ge> 60 \<or> centiseconds \<ge> 100 then None
               else Some (hours * MS_PER_HOUR + minutes * MS_PER_MINUTE
                          + seconds * MS_PER_SECOND + centiseconds * 10)
           | _ \<Rightarrow> None))"

subsection \<open>The codec as the specification words it\<close>

text \<open>
  The strict pattern \<open>H{1,2}:M{1,2}:S{1,2}.C{1,2}\<close>, read off the specification:
  four groups of one or two decimal digits, separated by colon, colon and full stop.
\<close>

definition digit_group :: "string \<Rightarrow> bool" where
  "digit_group g \<longleftrightarrow> (length g = 1 \<or> length g = 2) \<and> list_all is_digit g"

definition strict_pattern :: "string \<Rightarrow> string \<Rightarrow> string \<Rightarrow> string \<Rightarrow> string \<Rightarrow> bool" where
  "strict_pattern str h m s c \<longleftrightarrow>
     str = h @ '':'' @ m @ '':'' @ s @ ''.'' @ c
     \<and> digit_group h \<and> digit_group m \<and> digit_group s \<and> digit_group c"

definition spec_parse :: "string \<Rightarrow> int \<Rightarrow> bool" where
  "spec_parse str v \<longleftrightarrow>
     (\<exists>h m s c. strict_pattern str h m s c
        \<and> decimal m < 60 \<and> decimal s < 60 \<and> decimal c < 100
        \<and> v = decimal h * 3600000 + decimal m * 60000 + decimal s * 1000 + decimal c * 10)"

text \<open>
  The codec's representable range: the whole multiples of ten milliseconds below one
  hundred hours, which are the values a string \<open>hh:mm:ss.cc\<close> of two-digit fields
  denotes (lemma \<open>parseTime_range\<close>: exactly the values \<open>parseTime\<close> returns).
\<close>

definition representable :: "int \<Rightarrow> bool" where
  "representable ms \<longleftrightarrow> 0 \<le> ms \<and> ms < 100 * MS_PER_HOUR \<and> ms mod 10 = 0"


section \<open>The isolated clock (worker.js)\<close>

text \<open>
  Messages in both directions carry primitive values only. A \<open>start\<close> message may
  come without a payload, or with a payload that has no \<open>fromMs\<close>.
\<close>

datatype payload = Payload (fromMs: "int option")

datatype control_msg =
    MsgStart "payload option"
  | MsgPause
  | MsgReset
  | MsgGetState
  | MsgOther string

datatype clock_msg =
    Ready
  | Tick int
  | Started int
  | Paused int
  | ResetDone int
  | StateReport bool int

text \<open>
  The worker's four variables, and the interval timers its event loop holds:
  \<open>setInterval\<close> hands out the handle \<open>w_nextId\<close> and registers it in
  \<open>w_intervals\<close>, \<open>clearInterval\<close> removes a handle. \<open>performance.now()\<close>
  is the argument \<open>now\<close> of every operation that reads the clock; every operation
  returns the messages it posts.
\<close>

record worker =
  w_running :: bool
  startTime :: int
  accumulatedMs :: int
  tickInterval :: "nat option"
  w_intervals :: "nat list"
  w_nextId :: nat

definition worker_init :: worker where
  "worker_init = \<lparr> w_running = False, startTime = 0, accumulatedMs = 0,
     tickInterval = None, w_intervals = [], w_nextId = 0 \<rparr>"

definition w_clearInterval :: "nat option \<Rightarrow> worker \<Rightarrow> worker" where
  "w_clearInterval h w =
     (case h of None \<Rightarrow> w | Some i \<Rightarrow> w\<lparr> w_intervals := removeAll i (w_intervals w) \<rparr>)"

definition tick :: "int \<Rightarrow> worker \<Rightarrow> clock_msg list \<times> worker" where
  "tick now w =
     (if \<not> w_running w then ([], w)
      else ([Tick (accumulatedMs w + (now - startTime w))], w))"

definition start :: "int \<Rightarrow> int \<Rightarrow> worker \<Rightarrow> clock_msg list \<times> worker" where
  "start now from w =
     (if w_running w then ([], w)
      else
        (let w1 = w\<lparr> w_running := True, accumulatedMs := from, startTime := now \<rparr>;
             w2 = w1\<lparr> tickInterval := Some (w_nextId w1),
                       w_intervals := w_intervals w1 @ [w_nextId w1],
                       w_nextId := Suc (w_nextId w1) \<rparr>
         in ([Started (accumulatedMs w2)], w2)))"

definition pause :: "int \<Rightarrow> worker \<Rightarrow> clock_msg list \<times> worker" where
  "pause now w =
     (if \<not> w_running w then ([], w)
      else
        (let w1 = w\<lparr> w_running := False,
                      accumulatedMs := accumulatedMs w + (now - startTime w) \<rparr>;
             w2 = (if tickInterval w1 \<noteq> None
                   then (w_clearInterval (tickInterval w1) w1)\<lparr> tickInterval := None \<rparr>
                   else w1)
         in ([Paused (accumulatedMs w2)], w2)))"

definition reset :: "int \<Rightarrow> worker \<Rightarrow> clock_msg list \<times> worker" where
  "reset now w =
     (let wasRunning = w_running w;
          w1 = (if w_running w
                then (w_clearInterval (tickInterval w) w)\<lparr> tickInterval := None \<rparr>
                else w);
          w2 = w1\<lparr> w_running := False, startTime := 0, accumulatedMs := 0 \<rparr>
      in if wasRunning
         then (let (out, w3) = start now 0 w2 in (ResetDone 0 # out, w3))
         else ([ResetDone 0], w2))"

definition getState :: "int \<Rightarrow> worker \<Rightarrow> clock_msg list \<times> worker" where
  "getState now w =
     (let currentElapsed =
            (if w_running w then accumulatedMs w + (now - startTime w) else accumulatedMs w)
      in ([StateReport (w_running w) currentElapsed], w))"

text \<open>
  The message listener. \<open>payload?.fromMs ?? accumulatedMs\<close> is \<open>fromMs\<close> when the
  payload is there and has one, and the worker's \<open>accumulatedMs\<close> otherwise.
\<close>

definition onmessage :: "int \<Rightarrow> control_msg \<Rightarrow> worker \<Rightarrow> clock_msg list \<times> worker" where
  "onmessage now msg w =
     (case msg of
        MsgStart p \<Rightarrow>
          start now (case p of None \<Rightarrow> accumulatedMs w
                     | Some pl \<Rightarrow> (case fromMs pl of None \<Rightarrow> accumulatedMs w | Some f \<Rightarrow> f)) w
      | MsgPause \<Rightarrow> pause now w
      | MsgReset \<Rightarrow> reset now w
      | MsgGetState \<Rightarrow> getState now w
      | MsgOther t \<Rightarrow> ([], w))"

text \<open>
  What the worker's event loop can run: the message listener, or the callback of an
  interval timer that is still registered.
\<close>

datatype worker_event = Message control_msg | IntervalFires nat

definition worker_step :: "int \<Rightarrow> worker_event \<Rightarrow> worker \<Rightarrow> clock_msg list \<times> worker" where
  "worker_step now ev w =
     (case ev of
        Message m \<Rightarrow> onmessage now m w
      | IntervalFires i \<Rightarrow> (if i \<in> set (w_intervals w) then tick now w else ([], w)))"

fun worker_run :: "(int \<times> worker_event) list \<Rightarrow> worker \<Rightarrow> clock_msg list \<times> worker" where
  "worker_run [] w = ([], w)"
| "worker_run ((now, ev) # evs) w =
     (let (out, w1) = worker_step now ev w; (outs, w2) = worker_run evs w1
      in (out @ outs, w2))"

text \<open>
  The worker's invariant: a tick interval is scheduled exactly when \<open>running\<close> holds,
  and the event loop holds that interval and no other.
\<close>

definition worker_inv :: "worker \<Rightarrow> bool" where
  "worker_inv w \<longleftrightarrow>
     (tickInterval w \<noteq> None) = w_running w
     \<and> w_intervals w = (case tickInterval w of None \<Rightarrow> [] | Some i \<Rightarrow> [i])"


section \<open>The controller (script: timer state, render loop, controls)\<close>

datatype TimerMode = MODE_STOPWATCH | MODE_COUNTDOWN

text \<open>What the controller sends to its collaborators: announcements, pulse, sound, vibration.\<close>

datatype effect = Announce string | Pulsing | Beep | Vibrate "nat list"

text \<open>
  The object \<open>state\<close> (without \<open>theme\<close>; \<open>worker\<close> is the destination of
  \<open>outbox\<close>), the module variables \<open>fallbackStartTime\<close>, \<open>fallbackAccumulated\<close>,
  \<open>fallbackInterval\<close> and \<open>isEditing\<close>, and what the code reads or writes of its
  environment: the frame callbacks and interval timers the event loop holds (\<open>frames\<close>,
  \<open>intervals\<close>, handles drawn from \<open>nextHandle\<close>), the messages posted to the worker,
  the effects log, the two spans of the timer display, the editor's value, the label of
  the start/pause button and the stored countdown value and mode.
\<close>

record state =
  mode :: TimerMode
  running :: bool
  elapsedMs :: int
  countdownTargetMs :: int
  countdownCompleted :: bool
  muted :: bool
  animationFrameId :: "nat option"
  workerFallback :: bool
  fallbackStartTime :: int
  fallbackAccumulated :: int
  fallbackInterval :: "nat option"
  isEditing :: bool
  frames :: "nat list"
  intervals :: "nat list"
  nextHandle :: nat
  outbox :: "control_msg list"
  effects :: "effect list"
  timeMain :: string
  timeMsText :: string
  timeEditorValue :: string
  startPauseBtn :: string
  storedCountdown :: "string option"
  storedMode :: "TimerMode option"

text \<open>
  The state as the script declares it, with nothing stored. From there \<open>init\<close> loads
  the stored preferences (none here) and writes the display, which is never read back.
\<close>

definition initial_state :: state where
  "initial_state = \<lparr> mode = MODE_STOPWATCH, running = False, elapsedMs = 0,
     countdownTargetMs = 0, countdownCompleted = False, muted = False,
     animationFrameId = None, workerFallback = False,
     fallbackStartTime = 0, fallbackAccumulated = 0, fallbackInterval = None,
     isEditing = False, frames = [], intervals = [], nextHandle = 0, outbox = [],
     effects = [], timeMain = [], timeMsText = [], timeEditorValue = [],
     startPauseBtn = ''Start'', storedCountdown = None, storedMode = None \<rparr>"

definition announce :: "string \<Rightarrow> state \<Rightarrow> state" where
  "announce message s = s\<lparr> effects := effects s @ [Announce message] \<rparr>"

definition clearInterval :: "nat option \<Rightarrow> state \<Rightarrow> state" where
  "clearInterval h s =
     (case h of None \<Rightarrow> s | Some i \<Rightarrow> s\<lparr> intervals := removeAll i (intervals s) \<rparr>)"

text \<open>The two text nodes \<open>updateDisplay\<close> writes, for the milliseconds it is to show.\<close>

definition showTime :: "int \<Rightarrow> state \<Rightarrow> state" where
  "showTime ms s =
     (let p = formatTime ms
      in s\<lparr> timeMain := hh p @ '':'' @ mm p @ '':'' @ ss p, timeMsText := ''.'' @ cc p \<rparr>)"

definition startRenderLoop :: "state \<Rightarrow> state" where
  "startRenderLoop s =
     (if animationFrameId s = None
      then s\<lparr> animationFrameId := Some (nextHandle s), frames := frames s @ [nextHandle s],
              nextHandle := Suc (nextHandle s) \<rparr>
      else s)"

definition stopRenderLoop :: "state \<Rightarrow> state" where
  "stopRenderLoop s =
     (case animationFrameId s of
        None \<Rightarrow> s
      | Some i \<Rightarrow> s\<lparr> frames := removeAll i (frames s), animationFrameId := None \<rparr>)"

text \<open>
  \<open>updateDisplay\<close> calls \<open>handleCountdownComplete\<close>, which calls \<open>pauseTimer\<close>, which
  on the fallback clock calls \<open>updateDisplay\<close> again, by then with \<open>running\<close> false.
\<close>

function updateDisplay :: "int \<Rightarrow> state \<Rightarrow> state"
  and handleCountdownComplete :: "state \<Rightarrow> state"
  and pauseTimer :: "state \<Rightarrow> state" where
  "updateDisplay ms s =
     (if mode s = MODE_COUNTDOWN then
        (let remaining = max 0 (countdownTargetMs s - ms);
             s1 = showTime remaining s
         in if remaining = 0 \<and> running s1 \<and> \<not> countdownCompleted s1
            then handleCountdownComplete s1 else s1)
      else showTime ms s)"
| "handleCountdownComplete s =
     (let s1 = pauseTimer (s\<lparr> countdownCompleted := True \<rparr>);
          s2 = announce ''Countdown complete'' s1;
          s3 = s2\<lparr> effects := effects s2 @ [Pulsing] \<rparr>
      in if \<not> muted s3 then s3\<lparr> effects := effects s3 @ [Beep, Vibrate [200, 100, 200]] \<rparr>
         else s3)"
| "pauseTimer s =
     (if \<not> running s then s
      else if workerFallback s then
        (updateDisplay (elapsedMs s)
           (stopRenderLoop
              ((clearInterval (fallbackInterval s)
                  (s\<lparr> running := False, fallbackAccumulated := elapsedMs s \<rparr>))
               \<lparr> fallbackInterval := None \<rparr>)))
        \<lparr> startPauseBtn := ''Start'' \<rparr>
      else s\<lparr> outbox := outbox s @ [MsgPause], startPauseBtn := ''Start'' \<rparr>)"
  by pat_completeness auto
termination
  by (relation "measure (\<lambda>x. case x of
        Inl (ms, s) \<Rightarrow> (if running s then 5 else 2)
      | Inr (Inl s) \<Rightarrow> (if running s then 4 else 1)
      | Inr (Inr s) \<Rightarrow> (if running s then 3 else 0))")
    (auto simp: showTime_def stopRenderLoop_def clearInterval_def Let_def split: option.splits)

declare updateDisplay.simps [simp del] handleCountdownComplete.simps [simp del]
  pauseTimer.simps [simp del] digits.simps [simp del]

definition renderLoop :: "state \<Rightarrow> state" where
  "renderLoop s =
     (if running s then
        (let s1 = updateDisplay (elapsedMs s) s
         in s1\<lparr> animationFrameId := Some (nextHandle s1), frames := frames s1 @ [nextHandle s1],
                 nextHandle := Suc (nextHandle s1) \<rparr>)
      else s)"

text \<open>The handler of the worker's messages, and of its \<open>error\<close> event.\<close>

definition onWorkerMessage :: "clock_msg \<Rightarrow> state \<Rightarrow> state" where
  "onWorkerMessage msg s =
     (case msg of
        Ready \<Rightarrow> s
      | Tick elapsed \<Rightarrow> s\<lparr> elapsedMs := elapsed \<rparr>
      | Started elapsed \<Rightarrow> startRenderLoop (s\<lparr> running := True, elapsedMs := elapsed \<rparr>)
      | Paused elapsed \<Rightarrow>
          updateDisplay elapsed (stopRenderLoop (s\<lparr> running := False, elapsedMs := elapsed \<rparr>))
      | ResetDone elapsed \<Rightarrow>
          updateDisplay 0
            (stopRenderLoop (s\<lparr> running := False, elapsedMs := 0, countdownCompleted := False \<rparr>))
      | StateReport r elapsed \<Rightarrow> s\<lparr> running := r, elapsedMs := elapsed \<rparr>)"

definition fallbackToMainThread :: "state \<Rightarrow> state" where
  "fallbackToMainThread s = s\<lparr> workerFallback := True \<rparr>"

text \<open>The callback of the fallback clock's interval timer.\<close>

definition fallbackTick :: "int \<Rightarrow> state \<Rightarrow> state" where
  "fallbackTick now s = s\<lparr> elapsedMs := fallbackAccumulated s + (now - fallbackStartTime s) \<rparr>"

definition startTimer :: "int \<Rightarrow> state \<Rightarrow> state" where
  "startTimer now s =
     (if running s then s
      else
        (let s1 = s\<lparr> countdownCompleted := False \<rparr>;
             s2 = (if workerFallback s1 then
                     startRenderLoop
                       (s1\<lparr> running := True, fallbackStartTime := now,
                            fallbackAccumulated := elapsedMs s1,
                            fallbackInterval := Some (nextHandle s1),
                            intervals := intervals s1 @ [nextHandle s1],
                            nextHandle := Suc (nextHandle s1) \<rparr>)
                   else s1\<lparr> outbox := outbox s1
                                @ [MsgStart (Some (Payload (Some (elapsedMs s1))))] \<rparr>)
         in s2\<lparr> startPauseBtn := ''Pause'' \<rparr>))"

definition resetTimer :: "state \<Rightarrow> state" where
  "resetTimer s =
     (let s1 = (if workerFallback s then
                  (let a = (if running s
                            then (clearInterval (fallbackInterval s) s)\<lparr> fallbackInterval := None \<rparr>
                            else s)
                   in updateDisplay 0
                        (stopRenderLoop
                           (a\<lparr> running := False, elapsedMs := 0, fallbackAccumulated := 0,
                                countdownCompleted := False \<rparr>)))
                else s\<lparr> outbox := outbox s @ [MsgReset] \<rparr>)
      in announce ''Timer reset'' (s1\<lparr> startPauseBtn := ''Start'' \<rparr>))"

definition toggleStartPause :: "int \<Rightarrow> state \<Rightarrow> state" where
  "toggleStartPause now s = (if running s then pauseTimer s else startTimer now s)"

text \<open>
  \<open>setMode\<close>: \<open>saved\<close> is the stored countdown value, \<open>null\<close> when there is none;
  \<open>if (saved)\<close> is false for \<open>null\<close> and for the empty string.
\<close>

definition setMode :: "TimerMode \<Rightarrow> state \<Rightarrow> state" where
  "setMode m s =
     (if mode s = m then s
      else
        (let s1 = (if running s then pauseTimer s else s);
             s2 = s1\<lparr> mode := m, elapsedMs := 0, countdownCompleted := False \<rparr>;
             s3 = (if m = MODE_COUNTDOWN then
                     (let a = (case storedCountdown s2 of
                                 None \<Rightarrow> s2
                               | Some saved \<Rightarrow>
                                   (if saved = [] then s2
                                    else (case parseInt10 saved of
                                            None \<Rightarrow> s2
                                          | Some ms \<Rightarrow>
                                              if ms > 0 then s2\<lparr> countdownTargetMs := ms \<rparr>
                                              else s2)))
                      in if countdownTargetMs a = 0
                         then a\<lparr> countdownTargetMs := 5 * MS_PER_MINUTE \<rparr> else a)
                   else s2);
             s4 = updateDisplay 0 (s3\<lparr> storedMode := Some m \<rparr>)
         in s4\<lparr> startPauseBtn := ''Start'' \<rparr>))"

definition toggleMode :: "state \<Rightarrow> state" where
  "toggleMode s =
     setMode (if mode s = MODE_STOPWATCH then MODE_COUNTDOWN else MODE_STOPWATCH) s"

definition enterEditMode :: "state \<Rightarrow> state" where
  "enterEditMode s =
     (if isEditing s then s
      else
        (let s1 = s\<lparr> isEditing := True \<rparr>;
             s2 = (if running s1 then pauseTimer s1 else s1);
             currentValue = (if mode s2 = MODE_COUNTDOWN then msToString (countdownTargetMs s2)
                             else msToString (elapsedMs s2))
         in s2\<lparr> timeEditorValue := currentValue \<rparr>))"

definition exitEditMode :: "bool \<Rightarrow> state \<Rightarrow> state" where
  "exitEditMode save s =
     (if \<not> isEditing s then s
      else
        (let s1 = s\<lparr> isEditing := False \<rparr>;
             s2 = (if save then
                     (case parseTime (timeEditorValue s1) of
                        Some ms \<Rightarrow>
                          (if mode s1 = MODE_COUNTDOWN
                           then s1\<lparr> countdownTargetMs := ms, elapsedMs := 0,
                                     storedCountdown := Some (String_of ms) \<rparr>
                           else s1\<lparr> elapsedMs := ms \<rparr>)
                      | None \<Rightarrow> s1)
                   else s1)
         in updateDisplay (elapsedMs s2) s2))"

definition toggleMute :: "state \<Rightarrow> state" where
  "toggleMute s = s\<lparr> muted := \<not> muted s \<rparr>"

text \<open>The \<open>visibilitychange\<close> listener; \<open>hidden\<close> is \<open>document.hidden\<close>.\<close>

definition onVisibilityChange :: "bool \<Rightarrow> state \<Rightarrow> state" where
  "onVisibilityChange hidden s =
     (if hidden then stopRenderLoop s
      else if running s then startRenderLoop s
      else updateDisplay (elapsedMs s) s)"

text \<open>
  Everything the controller's event loop can run. A frame callback or an interval
  callback runs only while its handle is registered; a frame callback runs once.
\<close>

datatype event =
    StartTimer int
  | PauseTimer
  | ResetTimer
  | ToggleStartPause int
  | SetMode TimerMode
  | ToggleMode
  | EnterEditMode
  | EditorInput string
  | ExitEditMode bool
  | ToggleMute
  | WorkerMessage clock_msg
  | WorkerError
  | Frame nat
  | FallbackInterval nat int
  | VisibilityChange bool

definition step :: "event \<Rightarrow> state \<Rightarrow> state" where
  "step ev s =
     (case ev of
        StartTimer now \<Rightarrow> startTimer now s
      | PauseTimer \<Rightarrow> pauseTimer s
      | ResetTimer \<Rightarrow> resetTimer s
      | ToggleStartPause now \<Rightarrow> toggleStartPause now s
      | SetMode m \<Rightarrow> setMode m s
      | ToggleMode \<Rightarrow> toggleMode s
      | EnterEditMode \<Rightarrow> enterEditMode s
      | EditorInput v \<Rightarrow> s\<lparr> timeEditorValue := v \<rparr>
      | ExitEditMode save \<Rightarrow> exitEditMode save s
      | ToggleMute \<Rightarrow> toggleMute s
      | WorkerMessage m \<Rightarrow> onWorkerMessage m s
      | WorkerError \<Rightarrow> fallbackToMainThread s
      | Frame i \<Rightarrow>
          (if i \<in> set (frames s) then renderLoop (s\<lparr> frames := removeAll i (frames s) \<rparr>)
           else s)
      | FallbackInterval i now \<Rightarrow> (if i \<in> set (intervals s) then fallbackTick now s else s)
      | VisibilityChange hidden \<Rightarrow> onVisibilityChange hidden s)"

fun run :: "event list \<Rightarrow> state \<Rightarrow> state" where
  "run [] s = s"
| "run (ev # evs) s = run evs (step ev s)"

text \<open>The completion events sent so far, and the events that count as a reset, a start
  or a mode change.\<close>

definition completions :: "state \<Rightarrow> nat" where
  "completions s = length (filter (\<lambda>e. e = Announce ''Countdown complete'') (effects s))"

fun clears_flag :: "event \<Rightarrow> bool" where
  "clears_flag (StartTimer now) = True"
| "clears_flag (ToggleStartPause now) = True"
| "clears_flag ResetTimer = True"
| "clears_flag (WorkerMessage (ResetDone e)) = True"
| "clears_flag (SetMode m) = True"
| "clears_flag ToggleMode = True"
| "clears_flag ev = False"

text \<open>The worker answers a list of control messages, the controller takes the answers in.\<close>

fun worker_answers :: "int \<Rightarrow> control_msg list \<Rightarrow> worker \<Rightarrow> clock_msg list \<times> worker" where
  "worker_answers now [] w = ([], w)"
| "worker_answers now (m # ms) w =
     (let (out, w1) = onmessage now m w; (outs, w2) = worker_answers now ms w1
      in (out @ outs, w2))"

fun deliver :: "clock_msg list \<Rightarrow> state \<Rightarrow> state" where
  "deliver [] s = s"
| "deliver (m # ms) s = deliver ms (onWorkerMessage m s)"


text \<open>The five fields of the timer session.\<close>

definition session :: "state \<Rightarrow> TimerMode \<times> bool \<times> int \<times> int \<times> bool" where
  "session s = (mode s, running s, elapsedMs s, countdownTargetMs s, countdownCompleted s)"

text \<open>
  One round of message passing between the two contexts: at time \<open>now\<close> the worker
  takes the messages posted so far, and the controller handles its answers in order.
\<close>

definition exchange :: "int \<Rightarrow> state \<times> worker \<Rightarrow> state \<times> worker" where
  "exchange now sw =
     (let (answers, w') = worker_answers now (outbox (fst sw)) (snd sw)
      in (deliver answers ((fst sw)\<lparr> outbox := [] \<rparr>), w'))"

text \<open>
  The block of \<open>setMode\<close> that loads the countdown target, as a function of its own
  (lemma \<open>setMode_eq\<close>), and the value it leaves in \<open>countdownTargetMs\<close>.
\<close>

definition load_target :: "state \<Rightarrow> state" where
  "load_target s2 =
     (let a = (case storedCountdown s2 of
                 None \<Rightarrow> s2
               | Some saved \<Rightarrow>
                   (if saved = [] then s2
                    else (case parseInt10 saved of
                            None \<Rightarrow> s2
                          | Some ms \<Rightarrow> if ms > 0 then s2\<lparr> countdownTargetMs := ms \<rparr> else s2)))
      in if countdownTargetMs a = 0 then a\<lparr> countdownTargetMs := 5 * MS_PER_MINUTE \<rparr> else a)"

definition target_after_load :: "state \<Rightarrow> int" where
  "target_after_load s =
     (let t = (case storedCountdown s of
                 None \<Rightarrow> countdownTargetMs s
               | Some saved \<Rightarrow>
                   (case parseInt10 saved of
                      None \<Rightarrow> countdownTargetMs s
                    | Some ms \<Rightarrow> if saved \<noteq> [] \<and> ms > 0 then ms else countdownTargetMs s))
      in if t = 0 then 300000 else t)"

text \<open>
  Every frame callback the event loop holds is the one \<open>animationFrameId\<close> names;
  this holds in every state the controller can reach (lemma \<open>frames_inv_reachable\<close>).
\<close>

definition frames_inv :: "state \<Rightarrow> bool" where
  "frames_inv s \<longleftrightarrow> set (frames s) \<subseteq> set_option (animationFrameId s)"

subsection \<open>Sessions used as examples\<close>

text \<open>
  The application right after a start on the isolated clock at time 0, the start
  acknowledged; the same seen from the controller alone, with a tick at 12345 ms, and
  followed by an error event of the worker; and a five-second countdown that is started,
  hidden, and then receives a tick past its target.
\<close>

definition started_system :: "state \<times> worker" where
  "started_system = exchange 0 (startTimer 0 initial_state, worker_init)"

definition running_on_worker :: "event list" where
  "running_on_worker = [StartTimer 0, WorkerMessage (Started 0), WorkerMessage (Tick 12345)]"

definition fault_while_running :: "event list" where
  "fault_while_running = running_on_worker @ [WorkerError]"

definition hidden_overrun :: "event list" where
  "hidden_overrun = [SetMode MODE_COUNTDOWN, EnterEditMode, EditorInput ''00:00:05.00'',
     ExitEditMode True, StartTimer 0, WorkerMessage (Started 0), VisibilityChange True,
     WorkerMessage (Tick 6000)]"

text \<open>
  A one-second countdown that runs to completion on the fallback clock (the worker has
  failed) and on the isolated clock; the edit of the target to three seconds and the
  restart that may follow; and the two together, continued until the elapsed time is
  3500 ms.
\<close>

definition fallback_first_run :: "event list" where
  "fallback_first_run = [WorkerError, SetMode MODE_COUNTDOWN, EnterEditMode,
     EditorInput ''00:00:01.00'', ExitEditMode True, StartTimer 0, FallbackInterval 0 1000,
     Frame 1, Frame 2]"

definition edit_and_restart :: "event list" where
  "edit_and_restart = [EnterEditMode, EditorInput ''00:00:03.00'', ExitEditMode True,
     StartTimer 5000]"

definition fallback_second_run :: "event list" where
  "fallback_second_run = fallback_first_run @ edit_and_restart @ [FallbackInterval 3 8500]"

definition worker_first_run :: "event list" where
  "worker_first_run = [SetMode MODE_COUNTDOWN, EnterEditMode,
     EditorInput ''00:00:01.00'', ExitEditMode True, StartTimer 0, WorkerMessage (Started 0),
     WorkerMessage (Tick 1000), Frame 0, Frame 1, WorkerMessage (Paused 1003)]"

definition worker_second_run :: "event list" where
  "worker_second_run = worker_first_run @ edit_and_restart
     @ [WorkerMessage (Started 0), WorkerMessage (Tick 3500), Frame 3]"

text \<open>
  A five-second countdown on the isolated clock that is edited when a tick has just
  taken it past its target, the editor holding a string that does not parse; and the
  running stopwatch of \<open>started_system\<close>, edited at 12345 ms to five seconds. In both the
  submission is still to come.
\<close>

definition edit_during_countdown :: "event list" where
  "edit_during_countdown = [SetMode MODE_COUNTDOWN, EnterEditMode, EditorInput ''00:00:05.00'',
     ExitEditMode True, StartTimer 0, WorkerMessage (Started 0), WorkerMessage (Tick 6000),
     EnterEditMode, EditorInput ''abc'']"

definition edit_during_stopwatch :: "event list" where
  "edit_during_stopwatch = [WorkerMessage (Tick 12345), EnterEditMode,
     EditorInput ''00:00:05.00'']"

text \<open>The events that need no user and no worker: frame and interval callbacks.\<close>

fun autonomous :: "event \<Rightarrow> bool" where
  "autonomous (Frame i) = True"
| "autonomous (FallbackInterval i now) = True"
| "autonomous ev = False"

section \<open>Properties of the time codec\<close>

lemma lt10_cases:
  "d < 10 \<Longrightarrow> d = 0 \<or> d = 1 \<or> d = 2 \<or> d = 3 \<or> d = 4 \<or> d = 5 \<or> d = 6 \<or> d = 7 \<or> d = 8 \<or> d = (9::nat)"
  by arith

lemma is_digit_digit_char: "d < 10 \<Longrightarrow> is_digit (digit_char d)"
  using lt10_cases[of d] by (auto simp: is_digit_def digit_char_def)

lemma digit_val_digit_char: "d < 10 \<Longrightarrow> digit_val (digit_char d) = d"
  using lt10_cases[of d] by (auto simp: digit_val_def digit_char_def)

lemma digit_val_lt10: "is_digit c \<Longrightarrow> digit_val c < 10"
  by (auto simp: is_digit_def digit_val_def)

lemma is_digit_not_space: "is_digit c \<Longrightarrow> \<not> is_space c"
  by (auto simp: is_digit_def is_space_def)

lemma is_digit_not_sep: "is_digit c \<Longrightarrow> c \<noteq> CHR '':'' \<and> c \<noteq> CHR ''.'' \<and> c \<noteq> CHR ''-'' \<and> c \<noteq> CHR ''+''"
  by (auto simp: is_digit_def)

lemma not_digit_sep: "\<not> is_digit CHR '':''" "\<not> is_digit CHR ''.''"
  by (simp_all add: is_digit_def)

lemma digits_lt10: "n < 10 \<Longrightarrow> digits n = [digit_char n]"
  by (simp add: digits.simps)

lemma digits_lt100: "10 \<le> n \<Longrightarrow> n < 100 \<Longrightarrow> digits n = [digit_char (n div 10), digit_char (n mod 10)]"
  by (subst digits.simps) (simp add: digits_lt10)

lemma digit_char_0: "digit_char 0 = CHR ''0''"
  by (simp add: digit_char_def)

lemma pad2: 
  assumes "0 \<le> n" "n < 100"
  shows "padStart 2 CHR ''0'' (String_of n) = [digit_char (nat n div 10), digit_char (nat n mod 10)]"
proof (cases "n < 10")
  case True
  with assms have "digits (nat n) = [digit_char (nat n)]" by (simp add: digits_lt10)
  with assms True show ?thesis
    by (simp add: padStart_def String_of_def digit_char_0)
next
  case False
  with assms have "digits (nat n) = [digit_char (nat n div 10), digit_char (nat n mod 10)]"
    by (simp add: digits_lt100)
  with assms show ?thesis
    by (simp add: padStart_def String_of_def)
qed

lemma js_rem_nonneg: "0 \<le> a \<Longrightarrow> 0 < b \<Longrightarrow> js_rem a b = a mod b"
  by (cases "a = 0") (simp_all add: js_rem_def)

lemma digit_group_cases: "digit_group g \<longleftrightarrow> (\<exists>a. g = [a] \<and> is_digit a) \<or> (\<exists>a b. g = [a, b] \<and> is_digit a \<and> is_digit b)"
  by (auto simp: digit_group_def length_Suc_conv numeral_2_eq_2)

lemma digits_1_2_sound: "digits_1_2 s = Some (g, r) \<Longrightarrow> s = g @ r \<and> digit_group g"
  by (induction s rule: digits_1_2.induct) (auto simp: digit_group_def split: if_splits)

lemma digits_1_2_complete:
  "digit_group g \<Longrightarrow> r = [] \<or> \<not> is_digit (hd r) \<Longrightarrow> digits_1_2 (g @ r) = Some (g, r)"
  by (cases r) (auto simp: digit_group_cases)

lemma expect_Some: "expect c s = Some r \<longleftrightarrow> s = c # r"
  by (cases s) auto

lemma match_pattern_sound:
  "match_pattern str = Some (h, m, s, c) \<Longrightarrow> strict_pattern str h m s c"
  unfolding match_pattern_def strict_pattern_def
  by (auto split: option.splits if_splits prod.splits simp: expect_Some dest!: digits_1_2_sound)

lemma match_pattern_complete:
  assumes "strict_pattern str h m s c"
  shows "match_pattern str = Some (h, m, s, c)"
proof -
  from assms have str: "str = h @ CHR '':'' # m @ CHR '':'' # s @ CHR ''.'' # c"
    and g: "digit_group h" "digit_group m" "digit_group s" "digit_group c"
    by (simp_all add: strict_pattern_def)
  have 1: "digits_1_2 str = Some (h, CHR '':'' # m @ CHR '':'' # s @ CHR ''.'' # c)"
    unfolding str using g(1) by (intro digits_1_2_complete) (simp_all add: not_digit_sep)
  have 2: "digits_1_2 (m @ CHR '':'' # s @ CHR ''.'' # c) = Some (m, CHR '':'' # s @ CHR ''.'' # c)"
    using g(2) by (intro digits_1_2_complete) (simp_all add: not_digit_sep)
  have 3: "digits_1_2 (s @ CHR ''.'' # c) = Some (s, CHR ''.'' # c)"
    using g(3) by (intro digits_1_2_complete) (simp_all add: not_digit_sep)
  have 4: "digits_1_2 c = Some (c, [])"
    using g(4) digits_1_2_complete[of c "[]"] by simp
  show ?thesis
    by (simp add: match_pattern_def 1 2 3 4)
qed

lemma match_pattern_iff: "match_pattern str = Some (h, m, s, c) \<longleftrightarrow> strict_pattern str h m s c"
  using match_pattern_sound match_pattern_complete by blast

lemma parseInt10_digit_group: "digit_group g \<Longrightarrow> parseInt10 g = Some (decimal g)"
  by (auto simp: digit_group_cases parseInt10_def Let_def is_digit_not_space is_digit_not_sep)

lemma decimal_bounds: "digit_group g \<Longrightarrow> 0 \<le> decimal g \<and> decimal g < 100"
  by (auto simp: digit_group_cases decimal_def dest!: digit_val_lt10)

lemma decimal_two:
  assumes "x < 100"
  shows "decimal [digit_char (x div 10), digit_char (x mod 10)] = int x"
proof -
  have "x div 10 < 10" "x mod 10 < 10" using assms by simp_all
  then have "decimal [digit_char (x div 10), digit_char (x mod 10)]
      = 10 * int (x div 10) + int (x mod 10)"
    by (simp add: decimal_def digit_val_digit_char)
  also have "\<dots> = int x" by presburger
  finally show ?thesis .
qed


lemma match_pattern_parseInt10:
  assumes "match_pattern str = Some (g1, g2, g3, g4)"
  shows "parseInt10 g1 = Some (decimal g1) \<and> parseInt10 g2 = Some (decimal g2)
       \<and> parseInt10 g3 = Some (decimal g3) \<and> parseInt10 g4 = Some (decimal g4)"
  using match_pattern_sound[OF assms]
  by (simp add: strict_pattern_def parseInt10_digit_group)

lemma parseTime_iff: "parseTime str = Some v \<longleftrightarrow> spec_parse (trim str) v"
proof
  assume "parseTime str = Some v"
  then obtain g1 g2 g3 g4 where m: "match_pattern (trim str) = Some (g1, g2, g3, g4)"
    by (auto simp: parseTime_def split: option.splits)
  note p = match_pattern_parseInt10[OF m]
  from \<open>parseTime str = Some v\<close> m p
  have "decimal g2 < 60 \<and> decimal g3 < 60 \<and> decimal g4 < 100
      \<and> v = decimal g1 * 3600000 + decimal g2 * 60000 + decimal g3 * 1000 + decimal g4 * 10"
    by (simp add: parseTime_def MS_PER_HOUR_def MS_PER_MINUTE_def MS_PER_SECOND_def split: if_splits)
  with match_pattern_sound[OF m] show "spec_parse (trim str) v"
    unfolding spec_parse_def by blast
next
  assume "spec_parse (trim str) v"
  then obtain h m s c where sp: "strict_pattern (trim str) h m s c"
    and b: "decimal m < 60" "decimal s < 60" "decimal c < 100"
    and v: "v = decimal h * 3600000 + decimal m * 60000 + decimal s * 1000 + decimal c * 10"
    unfolding spec_parse_def by blast
  note mp = match_pattern_complete[OF sp]
  note p = match_pattern_parseInt10[OF mp]
  show "parseTime str = Some v"
    using b v by (simp add: parseTime_def mp p MS_PER_HOUR_def MS_PER_MINUTE_def MS_PER_SECOND_def)
qed

lemma dropWhile_hd: "xs \<noteq> [] \<Longrightarrow> \<not> P (hd xs) \<Longrightarrow> dropWhile P xs = xs"
  by (cases xs) auto

lemma trim_id:
  assumes "s \<noteq> []" "\<not> is_space (hd s)" "\<not> is_space (last s)"
  shows "trim s = s"
proof -
  have "dropWhile is_space s = s"
    using assms by (simp add: dropWhile_hd)
  moreover have "dropWhile is_space (rev s) = rev s"
    using assms by (intro dropWhile_hd) (simp_all add: hd_rev)
  ultimately show ?thesis by (simp add: trim_def)
qed

lemma nat_lt_100: "0 \<le> x \<Longrightarrow> x < 100 \<Longrightarrow> nat x < 100"
  by simp

lemma nat_lt_60: "0 \<le> x \<Longrightarrow> x < 60 \<Longrightarrow> nat x < 60"
  by simp

lemma formatTime_nonneg:
  assumes "0 \<le> ms"
  shows "formatTime ms =
    \<lparr> hh = padStart 2 CHR ''0'' (String_of (ms div 10 div 100 div 60 div 60)),
      mm = padStart 2 CHR ''0'' (String_of (ms div 10 div 100 div 60 mod 60)),
      ss = padStart 2 CHR ''0'' (String_of (ms div 10 div 100 mod 60)),
      cc = padStart 2 CHR ''0'' (String_of (ms div 10 mod 100)) \<rparr>"
proof -
  have a: "0 \<le> ms div 10" using assms by simp
  have b: "0 \<le> ms div 10 div 100" using a by simp
  have c: "0 \<le> ms div 10 div 100 div 60" using b by simp
  have 1: "js_rem (ms div 10) 100 = ms div 10 mod 100"
    using a by (rule js_rem_nonneg) simp
  have 2: "js_rem (ms div 10 div 100) 60 = ms div 10 div 100 mod 60"
    using b by (rule js_rem_nonneg) simp
  have 3: "js_rem (ms div 10 div 100 div 60) 60 = ms div 10 div 100 div 60 mod 60"
    using c by (rule js_rem_nonneg) simp
  show ?thesis
    unfolding formatTime_def Let_def CENTISECONDS_PER_SECOND_def 1 2 3 ..
qed

lemma msToString_canonical:
  assumes "0 \<le> ms" "ms < 100 * MS_PER_HOUR"
  shows "\<exists>h m s c. h < 100 \<and> m < 60 \<and> s < 60 \<and> c < 100
      \<and> int c * 10 + int s * 1000 + int m * 60000 + int h * 3600000 = ms - ms mod 10
      \<and> msToString ms = [digit_char (h div 10), digit_char (h mod 10), CHR '':'',
                          digit_char (m div 10), digit_char (m mod 10), CHR '':'',
                          digit_char (s div 10), digit_char (s mod 10), CHR ''.'',
                          digit_char (c div 10), digit_char (c mod 10)]"
proof -
  let ?cs = "ms div 10 mod 100"
  let ?seconds = "ms div 10 div 100 mod 60"
  let ?minutes = "ms div 10 div 100 div 60 mod 60"
  let ?hours = "ms div 10 div 100 div 60 div 60"
  have nn: "0 \<le> ?cs" "0 \<le> ?seconds" "0 \<le> ?minutes" "0 \<le> ?hours"
    using assms by simp_all
  have r: "?cs < 100" "?seconds < 60" "?minutes < 60"
    by simp_all
  have hb: "?hours < 100"
    using assms by (simp add: MS_PER_HOUR_def MS_PER_MINUTE_def MS_PER_SECOND_def)
  have sum: "?cs * 10 + ?seconds * 1000 + ?minutes * 60000 + ?hours * 3600000 = ms - ms mod 10"
    by presburger
  have p: "hh (formatTime ms) = [digit_char (nat ?hours div 10), digit_char (nat ?hours mod 10)]"
      "mm (formatTime ms) = [digit_char (nat ?minutes div 10), digit_char (nat ?minutes mod 10)]"
      "ss (formatTime ms) = [digit_char (nat ?seconds div 10), digit_char (nat ?seconds mod 10)]"
      "cc (formatTime ms) = [digit_char (nat ?cs div 10), digit_char (nat ?cs mod 10)]"
    using nn r hb by (simp_all only: formatTime_nonneg[OF assms(1)] time_parts.simps pad2)
  have str: "msToString ms =
      [digit_char (nat ?hours div 10), digit_char (nat ?hours mod 10), CHR '':'',
       digit_char (nat ?minutes div 10), digit_char (nat ?minutes mod 10), CHR '':'',
       digit_char (nat ?seconds div 10), digit_char (nat ?seconds mod 10), CHR ''.'',
       digit_char (nat ?cs div 10), digit_char (nat ?cs mod 10)]"
    unfolding msToString_def Let_def p by simp
  have b: "nat ?hours < 100" "nat ?minutes < 60" "nat ?seconds < 60" "nat ?cs < 100"
    using nn r hb by (simp_all only: nat_lt_100 nat_lt_60)
  have sum': "int (nat ?cs) * 10 + int (nat ?seconds) * 1000 + int (nat ?minutes) * 60000
        + int (nat ?hours) * 3600000 = ms - ms mod 10"
    unfolding nat_0_le[OF nn(1)] nat_0_le[OF nn(2)] nat_0_le[OF nn(3)] nat_0_le[OF nn(4)]
    by (rule sum)
  from b sum' str show ?thesis by blast
qed

lemma parseTime_msToString:
  assumes "0 \<le> ms" "ms < 100 * MS_PER_HOUR"
  shows "parseTime (msToString ms) = Some (ms - ms mod 10)"
proof -
  from msToString_canonical[OF assms] obtain h m s c where
    b: "h < 100" "m < 60" "s < 60" "c < 100"
    and sum: "int c * 10 + int s * 1000 + int m * 60000 + int h * 3600000 = ms - ms mod 10"
    and str: "msToString ms = [digit_char (h div 10), digit_char (h mod 10), CHR '':'',
                          digit_char (m div 10), digit_char (m mod 10), CHR '':'',
                          digit_char (s div 10), digit_char (s mod 10), CHR ''.'',
                          digit_char (c div 10), digit_char (c mod 10)]"
    by blast
  have d: "h div 10 < 10" "m div 10 < 10" "s div 10 < 10" "c div 10 < 10"
    using b by simp_all
  have tr: "trim (msToString ms) = msToString ms"
    by (rule trim_id) (simp_all add: str is_digit_not_space is_digit_digit_char d)
  have sp: "strict_pattern (msToString ms)
       [digit_char (h div 10), digit_char (h mod 10)] [digit_char (m div 10), digit_char (m mod 10)]
       [digit_char (s div 10), digit_char (s mod 10)] [digit_char (c div 10), digit_char (c mod 10)]"
    by (simp add: strict_pattern_def str digit_group_def is_digit_digit_char d)
  have "spec_parse (trim (msToString ms)) (ms - ms mod 10)"
    unfolding spec_parse_def tr
    apply (intro exI conjI)
        apply (rule sp)
    using b sum by (simp_all add: decimal_two)
  then show ?thesis by (simp add: parseTime_iff)
qed

lemma spec_parse_representable: "spec_parse str v \<Longrightarrow> representable v"
  unfolding spec_parse_def representable_def strict_pattern_def
  apply (clarsimp simp: MS_PER_HOUR_def MS_PER_MINUTE_def MS_PER_SECOND_def)
  subgoal for h m s c
    using decimal_bounds[of h] decimal_bounds[of m] decimal_bounds[of s] decimal_bounds[of c]
    by auto
  done

lemma parseTime_range: "(\<exists>str. parseTime str = Some ms) \<longleftrightarrow> representable ms"
proof
  assume "\<exists>str. parseTime str = Some ms"
  then show "representable ms" by (auto simp: parseTime_iff dest: spec_parse_representable)
next
  assume r: "representable ms"
  then have "parseTime (msToString ms) = Some (ms - ms mod 10)"
    by (intro parseTime_msToString) (simp_all add: representable_def)
  with r show "\<exists>str. parseTime str = Some ms" by (auto simp: representable_def)
qed

subsection \<open>Evaluating the codec\<close>

lemmas codec_eval = parseTime_def trim_def match_pattern_def is_space_def is_digit_def
  parseInt10_def decimal_def digit_val_def Let_def MS_PER_HOUR_def MS_PER_MINUTE_def
  MS_PER_SECOND_def

lemmas format_eval = msToString_def formatTime_nonneg pad2 digit_char_def Let_def

lemma msToString_example: "msToString 3723450 = ''01:02:03.45''"
  by (simp add: format_eval)

lemma msToString_truncates: "msToString 12345 = ''00:00:12.34''"
  by (simp add: format_eval)

lemma parseTime_msToString_truncates: "parseTime (msToString 12345) = Some 12340"
  by (simp add: msToString_truncates codec_eval)

lemma digits_100: "digits 100 = ''100''"
  by (simp add: digits.simps[of 100] digits.simps[of 10] digits_lt10 digit_char_def)

lemma msToString_100h: "msToString 360000000 = ''100:00:00.00''"
  by (simp add: msToString_def formatTime_nonneg digit_char_def String_of_def padStart_def
      digits_100 digits_lt10)

lemma parseTime_msToString_100h: "parseTime (msToString 360000000) = None"
  by (simp add: msToString_100h codec_eval)

lemma strict_pattern_hd:
  assumes "strict_pattern str h m s c"
  shows "is_digit (hd str)"
proof -
  from assms have str: "str = h @ '':'' @ m @ '':'' @ s @ ''.'' @ c" and g: "digit_group h"
    by (simp_all add: strict_pattern_def)
  from g obtain a r where "h = a # r" "is_digit a"
    unfolding digit_group_cases by blast
  then show ?thesis by (simp add: str)
qed

lemma spec_parse_hd: "spec_parse str v \<Longrightarrow> is_digit (hd str)"
  unfolding spec_parse_def using strict_pattern_hd by blast

text \<open>
  Claim C5. For every \<open>ms\<close> in the codec's representable range (the whole multiples of
  ten milliseconds from 0 up to, not including, one hundred hours; by
  \<open>parseTime_range\<close> these are exactly the values \<open>parseTime\<close> can return), parsing
  the formatted string \<open>hh:mm:ss.cc\<close> gives \<open>ms\<close> back.
  Outside that range the round trip is not the identity: \<open>parseTime_msToString\<close>
  (the last digit of the milliseconds is dropped) and \<open>parseTime_msToString_100h\<close>
  (three-digit hours do not parse).
\<close>

theorem parse_format_roundtrip:
  "representable ms \<Longrightarrow> parseTime (msToString ms) = Some ms"
proof -
  assume r: "representable ms"
  then have "parseTime (msToString ms) = Some (ms - ms mod 10)"
    by (intro parseTime_msToString) (simp_all add: representable_def)
  with r show ?thesis by (simp add: representable_def)
qed

theorem parse_format_roundtrip_witness:
  "representable 3723450 \<and> msToString 3723450 = ''01:02:03.45''
   \<and> parseTime (msToString 3723450) = Some 3723450"
proof -
  have r: "representable 3723450"
    by (simp add: representable_def MS_PER_HOUR_def MS_PER_MINUTE_def MS_PER_SECOND_def)
  from r parse_format_roundtrip[OF r] msToString_example show ?thesis by simp
qed

text \<open>
  Claim C6, as stated: \<open>parse\<close> accepts exactly the strings matching the strict
  pattern. It fails on a string with surrounding white space: \<open>parseTime\<close> trims its
  argument first, so \<open>" 1:2:3.4"\<close> is accepted although it does not match.
\<close>

theorem parseTime_untrimmed_counterexample:
  "parseTime '' 1:2:3.4'' = Some 3723040 \<and> \<not> spec_parse '' 1:2:3.4'' 3723040"
proof
  show "parseTime '' 1:2:3.4'' = Some 3723040"
    by (simp add: codec_eval)
  show "\<not> spec_parse '' 1:2:3.4'' 3723040"
  proof
    assume "spec_parse '' 1:2:3.4'' 3723040"
    from spec_parse_hd[OF this] show False by (simp add: is_digit_def)
  qed
qed

text \<open>
  Claim C6, amended: \<open>parseTime\<close> returns the millisecond count
  \<open>hours * 3600000 + minutes * 60000 + seconds * 1000 + centiseconds * 10\<close> for exactly
  the strings that, once white space at both ends is removed, match the strict pattern
  with minutes below 60, seconds below 60 and centiseconds below 100, and \<open>null\<close> for
  every other string; \<open>"00:60:00.00"\<close>, \<open>"00:00:60.00"\<close>, \<open>"00:00:00.100"\<close> and
  \<open>"abc"\<close> are rejected, \<open>"1:2:3.4"\<close> is accepted.
\<close>

theorem parseTime_accepts_trimmed_pattern:
  "(parseTime str = Some v \<longleftrightarrow> spec_parse (trim str) v)
   \<and> (parseTime str = None \<longleftrightarrow> (\<forall>u. \<not> spec_parse (trim str) u))
   \<and> parseTime ''00:60:00.00'' = None
   \<and> parseTime ''00:00:60.00'' = None
   \<and> parseTime ''00:00:00.100'' = None
   \<and> parseTime ''abc'' = None
   \<and> parseTime ''1:2:3.4'' = Some 3723040"
proof -
  have "parseTime str = None \<longleftrightarrow> (\<forall>u. \<not> spec_parse (trim str) u)"
    using parseTime_iff[of str] by (cases "parseTime str") auto
  moreover have "parseTime ''00:60:00.00'' = None" by (simp add: codec_eval)
  moreover have "parseTime ''00:00:60.00'' = None" by (simp add: codec_eval)
  moreover have "parseTime ''00:00:00.100'' = None" by (simp add: codec_eval)
  moreover have "parseTime ''abc'' = None" by (simp add: codec_eval)
  moreover have "parseTime ''1:2:3.4'' = Some 3723040" by (simp add: codec_eval)
  ultimately show ?thesis using parseTime_iff[of str v] by blast
qed

theorem parseTime_accepts_trimmed_pattern_witness:
  "parseTime '' 12:34:56.78 '' = Some 45296780
   \<and> spec_parse (trim '' 12:34:56.78 '') 45296780"
proof -
  have "parseTime '' 12:34:56.78 '' = Some 45296780" by (simp add: codec_eval)
  with parseTime_accepts_trimmed_pattern[of "'' 12:34:56.78 ''" 45296780] show ?thesis
    by blast
qed

section \<open>Properties of the isolated clock\<close>

lemmas worker_defs = onmessage_def start_def pause_def reset_def getState_def tick_def
  w_clearInterval_def worker_step_def

lemma worker_inv_init: "worker_inv worker_init"
  by (simp add: worker_inv_def worker_init_def)

lemma worker_inv_start: "worker_inv w \<Longrightarrow> worker_inv (snd (start now f w))"
  by (auto simp: worker_inv_def start_def Let_def split: option.splits)

lemma worker_inv_pause: "worker_inv w \<Longrightarrow> worker_inv (snd (pause now w))"
  by (auto simp: worker_inv_def pause_def w_clearInterval_def Let_def split: option.splits)

lemma worker_inv_reset: "worker_inv w \<Longrightarrow> worker_inv (snd (reset now w))"
  by (auto simp: worker_inv_def reset_def start_def w_clearInterval_def Let_def split: option.splits)

lemma worker_inv_onmessage: "worker_inv w \<Longrightarrow> worker_inv (snd (onmessage now m w))"
  by (cases m) (simp_all add: onmessage_def worker_inv_start worker_inv_pause worker_inv_reset
      getState_def Let_def)

lemma worker_inv_step: "worker_inv w \<Longrightarrow> worker_inv (snd (worker_step now ev w))"
  by (cases ev) (simp_all add: worker_step_def worker_inv_onmessage tick_def)

lemma worker_inv_run: "worker_inv w \<Longrightarrow> worker_inv (snd (worker_run evs w))"
proof (induction evs arbitrary: w)
  case Nil
  then show ?case by simp
next
  case (Cons a evs)
  obtain now ev where a: "a = (now, ev)" by (cases a)
  from Cons.prems have "worker_inv (snd (worker_step now ev w))"
    by (rule worker_inv_step)
  from Cons.IH[OF this] show ?case
    by (simp add: a split_beta Let_def)
qed

lemma worker_inv_one_loop: "worker_inv w \<Longrightarrow> length (w_intervals w) \<le> 1"
  by (auto simp: worker_inv_def split: option.splits)

lemma start_while_running: "w_running w \<Longrightarrow> onmessage now (MsgStart p) w = ([], w)"
  by (simp add: onmessage_def start_def)

lemma pause_reports_elapsed:
  "w_running w \<Longrightarrow> fst (onmessage now MsgPause w) = [Paused (accumulatedMs w + (now - startTime w))]
     \<and> \<not> w_running (snd (onmessage now MsgPause w))
     \<and> accumulatedMs (snd (onmessage now MsgPause w)) = accumulatedMs w + (now - startTime w)"
  by (auto simp: onmessage_def pause_def Let_def w_clearInterval_def split: option.splits)

text \<open>
  Claim C9. In the worker, a tick interval is scheduled exactly when \<open>running\<close> is
  true: this holds initially, every message (start, pause, reset, getState, unknown) and
  every interval callback preserves it, so it holds after any sequence of events. The
  event loop never holds more than one interval, and a start message that arrives while
  the worker is running changes nothing and posts nothing.
\<close>

theorem worker_tick_interval_invariant:
  "worker_inv worker_init
   \<and> (worker_inv w \<longrightarrow> worker_inv (snd (worker_step now ev w)))
   \<and> worker_inv (snd (worker_run evs worker_init))
   \<and> length (w_intervals (snd (worker_run evs worker_init))) \<le> 1
   \<and> (w_running w \<longrightarrow> onmessage now (MsgStart p) w = ([], w))"
  using worker_inv_init worker_inv_step worker_inv_run[OF worker_inv_init]
    worker_inv_one_loop[OF worker_inv_run[OF worker_inv_init]] start_while_running
  by blast

theorem worker_tick_interval_invariant_witness:
  "worker_inv (snd (worker_step 7 (Message (MsgStart None)) worker_init))
   \<and> w_running (snd (worker_step 7 (Message (MsgStart None)) worker_init))
   \<and> w_intervals (snd (worker_run [(7, Message (MsgStart None)), (9, Message (MsgStart (Some (Payload (Some 0)))))] worker_init)) = [0]
   \<and> onmessage 9 (MsgStart None) (snd (worker_step 7 (Message (MsgStart None)) worker_init))
       = ([], snd (worker_step 7 (Message (MsgStart None)) worker_init))"
  using worker_tick_interval_invariant[of worker_init 7 "Message (MsgStart None)" "[]"]
    worker_tick_interval_invariant[of "snd (worker_step 7 (Message (MsgStart None)) worker_init)" 9 ev "[]" None]
  by (simp add: worker_defs worker_init_def Let_def)

text \<open>
  Claim C10. A start message with no payload, or whose payload has no \<open>fromMs\<close>,
  starts a stopped worker from its current \<open>accumulatedMs\<close>: the worker posts
  \<open>started\<close> with that value, keeps it as its base and counts on from it. After a
  pause at elapsed value \<open>e\<close> that base is \<open>e\<close> (\<open>pause_reports_elapsed\<close>).
\<close>

theorem start_without_fromMs_resumes:
  assumes "\<not> w_running w" and "p = None \<or> p = Some (Payload None)"
  shows "fst (onmessage now (MsgStart p) w) = [Started (accumulatedMs w)]
       \<and> w_running (snd (onmessage now (MsgStart p) w))
       \<and> accumulatedMs (snd (onmessage now (MsgStart p) w)) = accumulatedMs w
       \<and> startTime (snd (onmessage now (MsgStart p) w)) = now
       \<and> fst (tick later (snd (onmessage now (MsgStart p) w)))
            = [Tick (accumulatedMs w + (later - now))]"
  using assms by (auto simp: onmessage_def start_def tick_def Let_def)



theorem start_without_fromMs_resumes_witness:
  "fst (onmessage 100 MsgPause (snd (onmessage 0 (MsgStart (Some (Payload (Some 40)))) worker_init))) = [Paused 140]
   \<and> fst (onmessage 500 (MsgStart None) (snd (onmessage 100 MsgPause (snd (onmessage 0 (MsgStart (Some (Payload (Some 40)))) worker_init))))) = [Started 140]
   \<and> fst (tick 530 (snd (onmessage 500 (MsgStart None) (snd (onmessage 100 MsgPause (snd (onmessage 0 (MsgStart (Some (Payload (Some 40)))) worker_init))))))) = [Tick 170]"
  using start_without_fromMs_resumes[of "snd (onmessage 100 MsgPause (snd (onmessage 0 (MsgStart (Some (Payload (Some 40)))) worker_init)))" None 500 530]
  by (simp add: worker_defs worker_init_def Let_def)

section \<open>Properties of the controller\<close>

lemmas helper_defs = showTime_def stopRenderLoop_def startRenderLoop_def clearInterval_def
  announce_def Let_def

lemma updateDisplay_quiet:
  assumes "\<not> (mode s = MODE_COUNTDOWN \<and> countdownTargetMs s - ms \<le> 0 \<and> running s
             \<and> \<not> countdownCompleted s)"
  shows "updateDisplay ms s =
           showTime (if mode s = MODE_COUNTDOWN then max 0 (countdownTargetMs s - ms) else ms) s"
  using assms by (auto simp: updateDisplay.simps showTime_def Let_def max_def)

lemma updateDisplay_fires:
  assumes "mode s = MODE_COUNTDOWN" "countdownTargetMs s - ms \<le> 0" "running s"
    "\<not> countdownCompleted s"
  shows "updateDisplay ms s = handleCountdownComplete (showTime 0 s)"
  using assms by (simp add: updateDisplay.simps showTime_def Let_def max_def)

lemma pauseTimer_eq:
  "pauseTimer s =
     (if \<not> running s then s
      else if workerFallback s then
        (showTime (if mode s = MODE_COUNTDOWN then max 0 (countdownTargetMs s - elapsedMs s)
                   else elapsedMs s)
           (stopRenderLoop
              ((clearInterval (fallbackInterval s)
                  (s\<lparr> running := False, fallbackAccumulated := elapsedMs s \<rparr>))
               \<lparr> fallbackInterval := None \<rparr>)))
        \<lparr> startPauseBtn := ''Start'' \<rparr>
      else s\<lparr> outbox := outbox s @ [MsgPause], startPauseBtn := ''Start'' \<rparr>)"
proof -
  let ?d = "stopRenderLoop
              ((clearInterval (fallbackInterval s)
                  (s\<lparr> running := False, fallbackAccumulated := elapsedMs s \<rparr>))
               \<lparr> fallbackInterval := None \<rparr>)"
  have d: "\<not> running ?d" "mode ?d = mode s" "countdownTargetMs ?d = countdownTargetMs s"
    by (simp_all add: stopRenderLoop_def clearInterval_def split: option.splits)
  have "updateDisplay (elapsedMs s) ?d =
      showTime (if mode s = MODE_COUNTDOWN then max 0 (countdownTargetMs s - elapsedMs s)
                else elapsedMs s) ?d"
    by (subst updateDisplay_quiet) (simp_all add: d)
  then show ?thesis
    by (subst pauseTimer.simps) simp
qed

lemma pauseTimer_session:
  "mode (pauseTimer s) = mode s"
  "elapsedMs (pauseTimer s) = elapsedMs s"
  "countdownTargetMs (pauseTimer s) = countdownTargetMs s"
  "countdownCompleted (pauseTimer s) = countdownCompleted s"
  "effects (pauseTimer s) = effects s"
  "muted (pauseTimer s) = muted s"
  "workerFallback (pauseTimer s) = workerFallback s"
  "isEditing (pauseTimer s) = isEditing s"
  "storedCountdown (pauseTimer s) = storedCountdown s"
  "timeEditorValue (pauseTimer s) = timeEditorValue s"
  by (simp_all add: pauseTimer_eq helper_defs split: option.splits)

lemma pauseTimer_running:
  "running (pauseTimer s) = (running s \<and> \<not> workerFallback s)"
  by (simp add: pauseTimer_eq helper_defs split: option.splits)

lemma pauseTimer_outbox:
  "outbox (pauseTimer s) = (if running s \<and> \<not> workerFallback s then outbox s @ [MsgPause] else outbox s)"
  by (simp add: pauseTimer_eq helper_defs split: option.splits)

lemma pauseTimer_fallback_clock:
  "running s \<Longrightarrow> workerFallback s \<Longrightarrow>
     fallbackInterval (pauseTimer s) = None \<and> fallbackAccumulated (pauseTimer s) = elapsedMs s
     \<and> animationFrameId (pauseTimer s) = None"
  by (simp add: pauseTimer_eq helper_defs split: option.splits)

lemma pauseTimer_if_running: "(if running s then pauseTimer s else s) = pauseTimer s"
  by (simp add: pauseTimer_eq)

lemma handleCountdownComplete_effects:
  "effects (handleCountdownComplete s) =
     effects s @ [Announce ''Countdown complete'', Pulsing]
       @ (if muted s then [] else [Beep, Vibrate [200, 100, 200]])"
  by (simp add: handleCountdownComplete.simps pauseTimer_session announce_def Let_def)

lemma handleCountdownComplete_session:
  "countdownCompleted (handleCountdownComplete s)"
  "mode (handleCountdownComplete s) = mode s"
  "elapsedMs (handleCountdownComplete s) = elapsedMs s"
  "countdownTargetMs (handleCountdownComplete s) = countdownTargetMs s"
  "running (handleCountdownComplete s) = (running s \<and> \<not> workerFallback s)"
  "outbox (handleCountdownComplete s)
     = (if running s \<and> \<not> workerFallback s then outbox s @ [MsgPause] else outbox s)"
  "workerFallback (handleCountdownComplete s) = workerFallback s"
  by (simp_all add: handleCountdownComplete.simps pauseTimer_session pauseTimer_running
      pauseTimer_outbox announce_def Let_def)

lemma completions_append:
  "completions (s\<lparr> effects := effects s @ es \<rparr>)
     = completions s + length (filter (\<lambda>e. e = Announce ''Countdown complete'') es)"
  by (simp add: completions_def)

lemma updateDisplay_completed:
  assumes "countdownCompleted s"
  shows "countdownCompleted (updateDisplay ms s) \<and> effects (updateDisplay ms s) = effects s"
  using assms by (simp add: updateDisplay_quiet showTime_def Let_def)

lemma pauseTimer_completed:
  "countdownCompleted s \<Longrightarrow>
     countdownCompleted (pauseTimer s) \<and> effects (pauseTimer s) = effects s"
  by (simp add: pauseTimer_session)

lemma onWorkerMessage_completed:
  assumes "countdownCompleted s" "\<not> clears_flag (WorkerMessage m)"
  shows "countdownCompleted (onWorkerMessage m s) \<and> effects (onWorkerMessage m s) = effects s"
proof (cases m)
  case (Paused e)
  have "countdownCompleted (stopRenderLoop (s\<lparr>running := False, elapsedMs := e\<rparr>))"
    using assms(1) by (simp add: stopRenderLoop_def split: option.splits)
  from updateDisplay_completed[OF this] show ?thesis
    by (simp add: Paused onWorkerMessage_def stopRenderLoop_def split: option.splits)
next
  case (ResetDone e)
  with assms show ?thesis by simp
qed (use assms in \<open>simp_all add: onWorkerMessage_def startRenderLoop_def\<close>)

lemma renderLoop_completed:
  assumes "countdownCompleted s"
  shows "countdownCompleted (renderLoop s) \<and> effects (renderLoop s) = effects s"
  using assms updateDisplay_completed[OF assms, of "elapsedMs s"]
  by (simp add: renderLoop_def Let_def)

lemma enterEditMode_completed:
  assumes "countdownCompleted s"
  shows "countdownCompleted (enterEditMode s) \<and> effects (enterEditMode s) = effects s"
  using assms by (simp add: enterEditMode_def Let_def pauseTimer_session)

lemma exitEditMode_completed:
  assumes "countdownCompleted s"
  shows "countdownCompleted (exitEditMode save s) \<and> effects (exitEditMode save s) = effects s"
proof (cases "isEditing s")
  case False
  with assms show ?thesis by (simp add: exitEditMode_def)
next
  case True
  define s2 where "s2 = (if save then
                     (case parseTime (timeEditorValue (s\<lparr> isEditing := False \<rparr>)) of
                        Some ms \<Rightarrow>
                          (if mode (s\<lparr> isEditing := False \<rparr>) = MODE_COUNTDOWN
                           then (s\<lparr> isEditing := False \<rparr>)\<lparr> countdownTargetMs := ms, elapsedMs := 0,
                                     storedCountdown := Some (String_of ms) \<rparr>
                           else (s\<lparr> isEditing := False \<rparr>)\<lparr> elapsedMs := ms \<rparr>)
                      | None \<Rightarrow> s\<lparr> isEditing := False \<rparr>)
                   else s\<lparr> isEditing := False \<rparr>)"
  have c: "countdownCompleted s2" and e: "effects s2 = effects s"
    using assms by (simp_all add: s2_def split: option.splits)
  have "exitEditMode save s = updateDisplay (elapsedMs s2) s2"
    using True by (simp add: exitEditMode_def Let_def s2_def)
  with updateDisplay_completed[OF c, of "elapsedMs s2"] e show ?thesis by simp
qed

lemma onVisibilityChange_completed:
  assumes "countdownCompleted s"
  shows "countdownCompleted (onVisibilityChange h s) \<and> effects (onVisibilityChange h s) = effects s"
  using assms updateDisplay_completed[OF assms, of "elapsedMs s"]
  by (simp add: onVisibilityChange_def stopRenderLoop_def startRenderLoop_def split: option.splits)

lemma step_completed:
  assumes "countdownCompleted s" "\<not> clears_flag ev"
  shows "countdownCompleted (step ev s) \<and> effects (step ev s) = effects s"
proof (cases ev)
  case PauseTimer
  with assms show ?thesis by (simp add: step_def pauseTimer_session)
next
  case EnterEditMode
  with enterEditMode_completed[OF assms(1)] show ?thesis by (simp add: step_def)
next
  case (ExitEditMode b)
  with exitEditMode_completed[OF assms(1)] show ?thesis by (simp add: step_def)
next
  case (WorkerMessage m)
  with onWorkerMessage_completed[OF assms(1), of m] assms(2) show ?thesis by (simp add: step_def)
next
  case (Frame i)
  have "countdownCompleted (s\<lparr>frames := removeAll i (frames s)\<rparr>)" using assms by simp
  from renderLoop_completed[OF this] assms show ?thesis by (simp add: step_def Frame)
next
  case (VisibilityChange h)
  with onVisibilityChange_completed[OF assms(1)] show ?thesis by (simp add: step_def)
qed (use assms in \<open>simp_all add: step_def toggleMute_def fallbackToMainThread_def fallbackTick_def\<close>)

lemma run_completed:
  assumes "countdownCompleted s" "list_all (\<lambda>ev. \<not> clears_flag ev) evs"
  shows "countdownCompleted (run evs s) \<and> effects (run evs s) = effects s"
  using assms
proof (induction evs arbitrary: s)
  case Nil
  then show ?case by simp
next
  case (Cons ev evs)
  from Cons.prems have 1: "countdownCompleted (step ev s)" "effects (step ev s) = effects s"
    using step_completed[of s ev] by simp_all
  from Cons.IH[OF 1(1)] Cons.prems(2) 1(2) show ?case by simp
qed

lemma updateDisplay_completes:
  assumes "mode s = MODE_COUNTDOWN" "countdownTargetMs s - ms \<le> 0" "running s"
    "\<not> countdownCompleted s"
  shows "countdownCompleted (updateDisplay ms s)"
    and "effects (updateDisplay ms s) = effects s @ [Announce ''Countdown complete'', Pulsing]
           @ (if muted s then [] else [Beep, Vibrate [200, 100, 200]])"
    and "completions (updateDisplay ms s) = completions s + 1"
    and "running (updateDisplay ms s) = (\<not> workerFallback s)"
    and "workerFallback s \<Longrightarrow> fallbackInterval (updateDisplay ms s) = None"
    and "outbox (updateDisplay ms s) = (if workerFallback s then outbox s else outbox s @ [MsgPause])"
    and "elapsedMs (updateDisplay ms s) = elapsedMs s"
    and "workerFallback (updateDisplay ms s) = workerFallback s"
proof -
  note u = updateDisplay_fires[OF assms]
  show "countdownCompleted (updateDisplay ms s)"
    by (simp add: u handleCountdownComplete_session)
  show e: "effects (updateDisplay ms s) = effects s @ [Announce ''Countdown complete'', Pulsing]
           @ (if muted s then [] else [Beep, Vibrate [200, 100, 200]])"
    by (simp add: u handleCountdownComplete_effects showTime_def Let_def)
  show "completions (updateDisplay ms s) = completions s + 1"
    by (simp add: completions_def e)
  show "running (updateDisplay ms s) = (\<not> workerFallback s)"
    using assms by (simp add: u handleCountdownComplete_session showTime_def Let_def)
  show "workerFallback s \<Longrightarrow> fallbackInterval (updateDisplay ms s) = None"
    using assms by (simp add: u handleCountdownComplete.simps announce_def Let_def
        pauseTimer_fallback_clock showTime_def)
  show "outbox (updateDisplay ms s) = (if workerFallback s then outbox s else outbox s @ [MsgPause])"
    using assms by (simp add: u handleCountdownComplete_session showTime_def Let_def)
  show "elapsedMs (updateDisplay ms s) = elapsedMs s"
    by (simp add: u handleCountdownComplete_session showTime_def Let_def)
  show "workerFallback (updateDisplay ms s) = workerFallback s"
    by (simp add: u handleCountdownComplete_session showTime_def Let_def)
qed

lemmas ctl_eval = step_def initial_state_def startTimer_def resetTimer_def setMode_def
  toggleStartPause_def toggleMode_def enterEditMode_def exitEditMode_def toggleMute_def
  onWorkerMessage_def fallbackToMainThread_def fallbackTick_def onVisibilityChange_def
  renderLoop_def updateDisplay.simps handleCountdownComplete.simps pauseTimer.simps
  showTime_def stopRenderLoop_def startRenderLoop_def clearInterval_def announce_def

lemmas worker_eval = onmessage_def start_def pause_def reset_def getState_def tick_def
  w_clearInterval_def worker_step_def worker_init_def

lemma startTimer_clears: "\<not> running s \<Longrightarrow> \<not> countdownCompleted (startTimer now s)"
  by (simp add: startTimer_def Let_def startRenderLoop_def)

lemma ResetDone_clears: "\<not> countdownCompleted (onWorkerMessage (ResetDone e) s)"
  by (simp add: onWorkerMessage_def updateDisplay_quiet stopRenderLoop_def showTime_def Let_def
      split: option.splits)

lemma resetTimer_fallback_clears: "workerFallback s \<Longrightarrow> \<not> countdownCompleted (resetTimer s)"
  by (simp add: resetTimer_def updateDisplay_quiet helper_defs split: option.splits)

lemma paused_ack_stops:
  assumes "countdownCompleted s"
  shows "\<not> running (onWorkerMessage (Paused e) s)
       \<and> effects (onWorkerMessage (Paused e) s) = effects s
       \<and> elapsedMs (onWorkerMessage (Paused e) s) = e"
  using assms
  by (simp add: onWorkerMessage_def updateDisplay_quiet stopRenderLoop_def showTime_def Let_def
      split: option.splits)

lemma updateDisplay_not_running_session:
  "\<not> running s \<Longrightarrow> session (updateDisplay ms s) = session s"
  by (simp add: updateDisplay_quiet session_def showTime_def Let_def)

lemma exitEditMode_rejected:
  assumes "isEditing s" "\<not> running s" "parseTime (timeEditorValue s) = None"
  shows "session (exitEditMode save s) = session s"
    and "storedCountdown (exitEditMode save s) = storedCountdown s"
    and "effects (exitEditMode save s) = effects s"
  using assms
  by (simp_all add: exitEditMode_def Let_def updateDisplay_quiet session_def showTime_def)

lemma exitEditMode_cancelled:
  assumes "isEditing s" "\<not> running s"
  shows "session (exitEditMode False s) = session s"
  using assms
  by (simp add: exitEditMode_def Let_def updateDisplay_quiet session_def showTime_def)

lemma exitEditMode_stopwatch:
  assumes "isEditing s" "\<not> running s" "parseTime (timeEditorValue s) = Some ms"
    "mode s = MODE_STOPWATCH"
  shows "session (exitEditMode True s)
           = (mode s, running s, ms, countdownTargetMs s, countdownCompleted s)"
  using assms
  by (simp add: exitEditMode_def Let_def updateDisplay_quiet session_def showTime_def)

lemma exitEditMode_countdown:
  assumes "isEditing s" "\<not> running s" "parseTime (timeEditorValue s) = Some ms"
    "mode s = MODE_COUNTDOWN"
  shows "session (exitEditMode True s) = (mode s, running s, 0, ms, countdownCompleted s)"
    and "storedCountdown (exitEditMode True s) = Some (String_of ms)"
  using assms
  by (simp_all add: exitEditMode_def Let_def updateDisplay_quiet session_def showTime_def)

lemma enterEditMode_pauses:
  assumes "\<not> isEditing t"
  shows "isEditing (enterEditMode t)"
    and "workerFallback t \<Longrightarrow> \<not> running (enterEditMode t)"
    and "\<not> workerFallback t \<Longrightarrow> running t \<Longrightarrow> outbox (enterEditMode t) = outbox t @ [MsgPause]"
    and "\<not> running (onWorkerMessage (Paused e) (enterEditMode t))"
    and "isEditing (onWorkerMessage (Paused e) (enterEditMode t))"
    and "mode (enterEditMode t) = mode t \<and> elapsedMs (enterEditMode t) = elapsedMs t
         \<and> countdownTargetMs (enterEditMode t) = countdownTargetMs t
         \<and> countdownCompleted (enterEditMode t) = countdownCompleted t"
  using assms
  by (simp_all add: enterEditMode_def Let_def pauseTimer_session pauseTimer_running
      pauseTimer_outbox onWorkerMessage_def updateDisplay_quiet stopRenderLoop_def showTime_def
      split: option.splits)

lemma hidden_overrun_state:
  "run hidden_overrun initial_state
 = \<lparr>mode = MODE_COUNTDOWN, running = True, elapsedMs = 6000,
    countdownTargetMs = 5000, countdownCompleted = False, muted = False,
    animationFrameId = None, workerFallback = False, fallbackStartTime = 0,
    fallbackAccumulated = 0, fallbackInterval = None, isEditing = False,
    frames = [], intervals = [], nextHandle = 1,
    outbox = [MsgStart (Some (Payload (Some 0)))], effects = [],
    timeMain = ''00:00:05'', timeMsText = ''.00'',
    timeEditorValue = ''00:00:05.00'', startPauseBtn = ''Pause'',
    storedCountdown = Some ''5000'', storedMode = Some MODE_COUNTDOWN\<rparr>"
  by (simp add: hidden_overrun_def ctl_eval codec_eval format_eval padStart_def String_of_def
      digits.simps[of 5000] digits.simps[of 500] digits.simps[of 50] digits_lt10)

lemma running_on_worker_state:
  "run running_on_worker initial_state
  = \<lparr>mode = MODE_STOPWATCH, running = True, elapsedMs = 12345,
    countdownTargetMs = 0, countdownCompleted = False, muted = False,
    animationFrameId = Some 0, workerFallback = False, fallbackStartTime = 0,
    fallbackAccumulated = 0, fallbackInterval = None, isEditing = False,
    frames = [0], intervals = [], nextHandle = 1,
    outbox = [MsgStart (Some (Payload (Some 0)))], effects = [],
    timeMain = [], timeMsText = [], timeEditorValue = [],
    startPauseBtn = ''Pause'', storedCountdown = None, storedMode = None\<rparr>"
  by (simp add: running_on_worker_def ctl_eval)

lemma removeAll_only: "set xs \<subseteq> {x} \<Longrightarrow> removeAll x xs = []"
  by (induction xs) auto

lemma run_append: "run (evs @ evs') s = run evs' (run evs s)"
  by (induction evs arbitrary: s) simp_all

lemma run_ticks:
  "run (map (\<lambda>e. WorkerMessage (Tick e)) es) s = s\<lparr> elapsedMs := last (elapsedMs s # es) \<rparr>"
  by (induction es arbitrary: s) (simp_all add: step_def onWorkerMessage_def)

lemma frame_fires_completion:
  assumes "mode s = MODE_COUNTDOWN" "running s" "\<not> countdownCompleted s"
    "countdownTargetMs s - elapsedMs s \<le> 0" "i \<in> set (frames s)"
  shows "completions (step (Frame i) s) = completions s + 1"
    and "countdownCompleted (step (Frame i) s)"
proof -
  let ?s = "s\<lparr> frames := removeAll i (frames s) \<rparr>"
  have "mode ?s = MODE_COUNTDOWN" "countdownTargetMs ?s - elapsedMs ?s \<le> 0" "running ?s"
    "\<not> countdownCompleted ?s"
    using assms by simp_all
  note u = updateDisplay_completes[OF this]
  have "completions ?s = completions s" by (simp add: completions_def)
  with u(3) assms show "completions (step (Frame i) s) = completions s + 1"
    by (simp add: step_def renderLoop_def Let_def completions_def)
  from u(1) assms show "countdownCompleted (step (Frame i) s)"
    by (simp add: step_def renderLoop_def Let_def)
qed

lemma hide_then_ticks:
  "run (VisibilityChange True # map (\<lambda>e. WorkerMessage (Tick e)) es) s
     = (stopRenderLoop s)\<lparr> elapsedMs := last (elapsedMs s # es) \<rparr>"
  by (simp add: run_ticks step_def onVisibilityChange_def stopRenderLoop_def split: option.splits)

lemma started_system_state:
  "started_system =
    (\<lparr>mode = MODE_STOPWATCH, running = True, elapsedMs = 0,
    countdownTargetMs = 0, countdownCompleted = False, muted = False,
    animationFrameId = Some 0, workerFallback = False, fallbackStartTime = 0,
    fallbackAccumulated = 0, fallbackInterval = None, isEditing = False,
    frames = [0], intervals = [], nextHandle = 1,
    outbox = [], effects = [],
    timeMain = [], timeMsText = [], timeEditorValue = [],
    startPauseBtn = ''Pause'', storedCountdown = None, storedMode = None\<rparr>,
    \<lparr> w_running = True, startTime = 0, accumulatedMs = 0,
     tickInterval = Some 0, w_intervals = [0], w_nextId = 1 \<rparr>)"
  by (simp add: started_system_def exchange_def ctl_eval worker_eval Let_def)

lemma resetTimer_fallback_idle:
  assumes "workerFallback s"
  shows "session (resetTimer s) = (mode s, False, 0, countdownTargetMs s, False)"
    and "running s \<Longrightarrow> fallbackInterval (resetTimer s) = None"
    and "completions (resetTimer s) = completions s"
  using assms
  by (simp_all add: resetTimer_def updateDisplay_quiet helper_defs session_def completions_def
      split: option.splits)

lemma resetTimer_worker_posts:
  "\<not> workerFallback s \<Longrightarrow> outbox (resetTimer s) = outbox s @ [MsgReset]
     \<and> session (resetTimer s) = session s"
  by (simp add: resetTimer_def announce_def session_def Let_def)

lemma ResetDone_idle:
  "session (onWorkerMessage (ResetDone e) s) = (mode s, False, 0, countdownTargetMs s, False)"
  by (simp add: onWorkerMessage_def updateDisplay_quiet stopRenderLoop_def showTime_def Let_def
      session_def split: option.splits)

lemma reset_stopped_worker:
  "\<not> w_running w \<Longrightarrow> onmessage now MsgReset w
      = ([ResetDone 0], w\<lparr> w_running := False, startTime := 0, accumulatedMs := 0 \<rparr>)"
  by (simp add: onmessage_def reset_def Let_def)

lemma reset_running_worker:
  "w_running w \<Longrightarrow> fst (onmessage now MsgReset w) = [ResetDone 0, Started 0]
     \<and> w_running (snd (onmessage now MsgReset w))"
  by (simp add: onmessage_def reset_def start_def Let_def w_clearInterval_def split: option.splits)

lemma resetTimer_worker_stopped_idle:
  assumes "\<not> workerFallback s" "outbox s = []" "\<not> w_running w"
  shows "session (fst (exchange now (resetTimer s, w)))
           = (mode s, False, 0, countdownTargetMs s, False)"
proof -
  have o: "outbox (resetTimer s) = [MsgReset]" and f: "session (resetTimer s) = session s"
    using assms resetTimer_worker_posts[of s] by simp_all
  have "fst (exchange now (resetTimer s, w))
      = onWorkerMessage (ResetDone 0) ((resetTimer s)\<lparr> outbox := [] \<rparr>)"
    using assms(3) by (simp add: exchange_def o reset_stopped_worker)
  moreover have "session (onWorkerMessage (ResetDone 0) ((resetTimer s)\<lparr> outbox := [] \<rparr>))
      = (mode (resetTimer s), False, 0, countdownTargetMs (resetTimer s), False)"
    by (simp add: ResetDone_idle)
  ultimately show ?thesis using f by (simp add: session_def)
qed

lemma resetTimer_worker_running_restarts:
  assumes "\<not> workerFallback s" "outbox s = []" "w_running w"
  shows "running (fst (exchange now (resetTimer s, w)))"
    and "w_running (snd (exchange now (resetTimer s, w)))"
    and "elapsedMs (fst (exchange now (resetTimer s, w))) = 0"
    and "startPauseBtn (fst (exchange now (resetTimer s, w))) = ''Start''"
proof -
  obtain w' where r: "onmessage now MsgReset w = ([ResetDone 0, Started 0], w')" "w_running w'"
    using reset_running_worker[OF assms(3), of now] by (cases "onmessage now MsgReset w") auto
  have o: "outbox (resetTimer s) = [MsgReset]"
    using assms resetTimer_worker_posts[of s] by simp
  have e: "exchange now (resetTimer s, w)
      = (deliver [ResetDone 0, Started 0] ((resetTimer s)\<lparr> outbox := [] \<rparr>), w')"
    by (simp add: exchange_def o r)
  show "running (fst (exchange now (resetTimer s, w)))"
    by (simp add: e onWorkerMessage_def startRenderLoop_def)
  show "w_running (snd (exchange now (resetTimer s, w)))"
    by (simp add: e r)
  show "elapsedMs (fst (exchange now (resetTimer s, w))) = 0"
    by (simp add: e onWorkerMessage_def startRenderLoop_def)
  show "startPauseBtn (fst (exchange now (resetTimer s, w))) = ''Start''"
  proof -
    have "startPauseBtn (resetTimer s) = ''Start''"
      by (simp add: resetTimer_def announce_def Let_def)
    then show ?thesis
      unfolding e
      by (simp add: onWorkerMessage_def startRenderLoop_def updateDisplay_quiet stopRenderLoop_def
          showTime_def Let_def split: option.splits)
  qed
qed

lemma load_target_fields:
  "mode (load_target s) = mode s" "running (load_target s) = running s"
  "elapsedMs (load_target s) = elapsedMs s"
  "countdownCompleted (load_target s) = countdownCompleted s"
  "countdownTargetMs (load_target s) = target_after_load s"
  "outbox (load_target s) = outbox s" "effects (load_target s) = effects s"
  by (simp_all add: load_target_def target_after_load_def Let_def MS_PER_MINUTE_def
      MS_PER_SECOND_def split: option.splits)

lemma target_after_load_pos: "0 \<le> countdownTargetMs s \<Longrightarrow> 0 < target_after_load s"
  by (auto simp: target_after_load_def Let_def split: option.splits)

lemma target_after_load_none:
  "storedCountdown s = None \<Longrightarrow> countdownTargetMs s = 0 \<Longrightarrow> target_after_load s = 300000"
  by (simp add: target_after_load_def)

lemma setMode_eq:
  assumes "mode s \<noteq> m"
  shows "setMode m s =
     (updateDisplay 0
        ((if m = MODE_COUNTDOWN
          then load_target ((pauseTimer s)
                 \<lparr> mode := m, elapsedMs := 0, countdownCompleted := False \<rparr>)
          else (pauseTimer s)
                 \<lparr> mode := m, elapsedMs := 0, countdownCompleted := False \<rparr>)
         \<lparr> storedMode := Some m \<rparr>))
     \<lparr> startPauseBtn := ''Start'' \<rparr>"
proof -
  have "setMode m s =
     (updateDisplay 0
        ((if m = MODE_COUNTDOWN
          then load_target ((if running s then pauseTimer s else s)
                 \<lparr> mode := m, elapsedMs := 0, countdownCompleted := False \<rparr>)
          else (if running s then pauseTimer s else s)
                 \<lparr> mode := m, elapsedMs := 0, countdownCompleted := False \<rparr>)
         \<lparr> storedMode := Some m \<rparr>))
     \<lparr> startPauseBtn := ''Start'' \<rparr>"
    using assms by (cases m) (simp_all add: setMode_def load_target_def Let_def)
  then show ?thesis by (simp only: pauseTimer_if_running)
qed

lemma target_after_load_cong:
  "storedCountdown a = storedCountdown b \<Longrightarrow> countdownTargetMs a = countdownTargetMs b
     \<Longrightarrow> target_after_load a = target_after_load b"
  unfolding target_after_load_def by (simp only:)

lemma setMode_session:
  assumes "mode s \<noteq> m" "0 \<le> countdownTargetMs s"
  shows "session (setMode m s)
     = (m, running s \<and> \<not> workerFallback s, 0,
        if m = MODE_COUNTDOWN then target_after_load s else countdownTargetMs s, False)"
    and "outbox (setMode m s)
     = (if running s \<and> \<not> workerFallback s then outbox s @ [MsgPause] else outbox s)"
    and "effects (setMode m s) = effects s"
proof -
  let ?p = "(pauseTimer s)\<lparr> mode := m, elapsedMs := 0, countdownCompleted := False \<rparr>"
  have p: "running ?p = (running s \<and> \<not> workerFallback s)"
    "countdownTargetMs ?p = countdownTargetMs s" "storedCountdown ?p = storedCountdown s"
    "outbox ?p = (if running s \<and> \<not> workerFallback s then outbox s @ [MsgPause] else outbox s)"
    "effects ?p = effects s" "mode ?p = m" "elapsedMs ?p = 0" "\<not> countdownCompleted ?p"
    by (simp_all add: pauseTimer_running pauseTimer_session pauseTimer_outbox)
  have tl: "target_after_load
       ((pauseTimer s)\<lparr> mode := m', elapsedMs := 0, countdownCompleted := False \<rparr>)
      = target_after_load s" for m'
    by (rule target_after_load_cong) (simp_all add: pauseTimer_session)
  let ?q = "(if m = MODE_COUNTDOWN then load_target ?p else ?p)\<lparr> storedMode := Some m \<rparr>"
  have q: "mode ?q = m" "running ?q = (running s \<and> \<not> workerFallback s)" "elapsedMs ?q = 0"
    "\<not> countdownCompleted ?q"
    "countdownTargetMs ?q = (if m = MODE_COUNTDOWN then target_after_load s else countdownTargetMs s)"
    "outbox ?q = (if running s \<and> \<not> workerFallback s then outbox s @ [MsgPause] else outbox s)"
    "effects ?q = effects s"
    using p tl by (simp_all add: load_target_fields del: pauseTimer_session)
  have quiet: "\<not> (mode ?q = MODE_COUNTDOWN \<and> countdownTargetMs ?q - 0 \<le> 0 \<and> running ?q
             \<and> \<not> countdownCompleted ?q)"
    using target_after_load_pos[OF assms(2)] unfolding q(1) q(5) by auto
  have e: "setMode m s = (showTime (if mode ?q = MODE_COUNTDOWN then max 0 (countdownTargetMs ?q - 0)
       else 0) ?q)\<lparr> startPauseBtn := ''Start'' \<rparr>"
    unfolding setMode_eq[OF assms(1)] updateDisplay_quiet[OF quiet] ..
  show "session (setMode m s)
     = (m, running s \<and> \<not> workerFallback s, 0,
        if m = MODE_COUNTDOWN then target_after_load s else countdownTargetMs s, False)"
    unfolding e session_def showTime_def Let_def using q by simp
  show "outbox (setMode m s)
     = (if running s \<and> \<not> workerFallback s then outbox s @ [MsgPause] else outbox s)"
    unfolding e showTime_def Let_def using q by simp
  show "effects (setMode m s) = effects s"
    unfolding e showTime_def Let_def using q by simp
qed

lemma setMode_clears:
  "mode s \<noteq> m \<Longrightarrow> 0 \<le> countdownTargetMs s \<Longrightarrow> \<not> countdownCompleted (setMode m s)"
  using setMode_session(1)[of s m] by (simp add: session_def)

lemma setMode_fallback_pauses_first:
  assumes "mode s \<noteq> m" "0 \<le> countdownTargetMs s" "workerFallback s"
  shows "session (setMode m s)
     = (m, False, 0, if m = MODE_COUNTDOWN then target_after_load s else countdownTargetMs s, False)"
  using setMode_session(1)[OF assms(1,2)] assms(3) by simp

subsection \<open>Frame callbacks\<close>

lemma frames_inv_cong:
  "frames a = frames b \<Longrightarrow> animationFrameId a = animationFrameId b \<Longrightarrow> frames_inv a = frames_inv b"
  by (simp add: frames_inv_def)

lemma frames_inv_stop: "frames_inv s \<Longrightarrow> frames_inv (stopRenderLoop s)"
  by (auto simp: frames_inv_def stopRenderLoop_def split: option.splits)

lemma frames_inv_start: "frames_inv s \<Longrightarrow> frames_inv (startRenderLoop s)"
  by (auto simp: frames_inv_def startRenderLoop_def split: option.splits)

lemma frames_inv_pauseTimer: "frames_inv s \<Longrightarrow> frames_inv (pauseTimer s)"
  by (auto simp: frames_inv_def pauseTimer_eq helper_defs split: option.splits)

lemma frames_inv_updateDisplay: "frames_inv s \<Longrightarrow> frames_inv (updateDisplay ms s)"
proof (cases "mode s = MODE_COUNTDOWN \<and> countdownTargetMs s - ms \<le> 0 \<and> running s
             \<and> \<not> countdownCompleted s")
  case False
  assume "frames_inv s"
  then show ?thesis
    by (simp add: updateDisplay_quiet[OF False] frames_inv_def showTime_def Let_def)
next
  case True
  assume i: "frames_inv s"
  have "frames_inv (pauseTimer ((showTime 0 s)\<lparr>countdownCompleted := True\<rparr>))"
    by (rule frames_inv_pauseTimer) (use i in \<open>simp add: frames_inv_def showTime_def Let_def\<close>)
  then show ?thesis
    using True
    by (simp add: updateDisplay_fires handleCountdownComplete.simps announce_def Let_def
        frames_inv_def)
qed

lemma frames_inv_renderLoop:
  assumes "frames s = []"
  shows "frames_inv (renderLoop s)"
proof (cases "running s")
  case False
  with assms show ?thesis by (simp add: renderLoop_def frames_inv_def)
next
  case True
  have "frames (updateDisplay (elapsedMs s) s) = []"
  proof (cases "mode s = MODE_COUNTDOWN \<and> countdownTargetMs s - elapsedMs s \<le> 0 \<and> running s
             \<and> \<not> countdownCompleted s")
    case False
    show ?thesis
      by (simp add: updateDisplay_quiet[OF False] showTime_def Let_def assms)
  next
    case T: True
    then show ?thesis
      using assms
      by (simp add: updateDisplay_fires handleCountdownComplete.simps announce_def Let_def
          pauseTimer_eq helper_defs split: option.splits)
  qed
  with True show ?thesis
    by (simp add: renderLoop_def Let_def frames_inv_def)
qed

lemma frames_inv_step: "frames_inv s \<Longrightarrow> frames_inv (step ev s)"
proof (cases ev)
  case (Frame i)
  assume a: "frames_inv s"
  show ?thesis
  proof (cases "i \<in> set (frames s)")
    case False
    with a show ?thesis by (simp add: step_def Frame)
  next
    case True
    with a have "set (frames s) \<subseteq> {i}"
      by (cases "animationFrameId s") (auto simp: frames_inv_def)
    then have "frames (s\<lparr>frames := removeAll i (frames s)\<rparr>) = []"
      by (simp add: removeAll_only)
    from frames_inv_renderLoop[OF this] True show ?thesis by (simp add: step_def Frame)
  qed
next
  case (StartTimer now)
  assume a: "frames_inv s"
  then show ?thesis
    by (auto simp: step_def StartTimer startTimer_def Let_def frames_inv_def startRenderLoop_def)
next
  case PauseTimer
  assume "frames_inv s" then show ?thesis by (simp add: step_def PauseTimer frames_inv_pauseTimer)
next
  case ResetTimer
  assume a: "frames_inv s"
  have "frames_inv (resetTimer s) = frames_inv (if workerFallback s then
            updateDisplay 0 (stopRenderLoop ((if running s
                            then (clearInterval (fallbackInterval s) s)\<lparr> fallbackInterval := None \<rparr>
                            else s)\<lparr> running := False, elapsedMs := 0, fallbackAccumulated := 0,
                                countdownCompleted := False \<rparr>)) else s)"
    by (rule frames_inv_cong) (simp_all add: resetTimer_def announce_def Let_def)
  moreover have "frames_inv (updateDisplay 0 (stopRenderLoop ((if running s
                            then (clearInterval (fallbackInterval s) s)\<lparr> fallbackInterval := None \<rparr>
                            else s)\<lparr> running := False, elapsedMs := 0, fallbackAccumulated := 0,
                                countdownCompleted := False \<rparr>)))"
    by (intro frames_inv_updateDisplay frames_inv_stop)
      (use a in \<open>simp add: frames_inv_def clearInterval_def split: option.splits\<close>)
  ultimately show ?thesis using a by (simp add: step_def ResetTimer)
next
  case (ToggleStartPause now)
  assume a: "frames_inv s"
  show ?thesis
  proof (cases "running s")
    case True
    with frames_inv_pauseTimer[OF a] show ?thesis
      by (simp add: step_def ToggleStartPause toggleStartPause_def)
  next
    case False
    with a show ?thesis
      by (auto simp: step_def ToggleStartPause toggleStartPause_def
          startTimer_def Let_def frames_inv_def startRenderLoop_def)
  qed
next
  case (SetMode m)
  assume a: "frames_inv s"
  show ?thesis
  proof (cases "mode s = m")
    case True
    with a show ?thesis by (simp add: step_def SetMode setMode_def)
  next
    case False
    let ?q = "(if m = MODE_COUNTDOWN
          then load_target ((pauseTimer s)
                 \<lparr> mode := m, elapsedMs := 0, countdownCompleted := False \<rparr>)
          else (pauseTimer s)
                 \<lparr> mode := m, elapsedMs := 0, countdownCompleted := False \<rparr>)
         \<lparr> storedMode := Some m \<rparr>"
    have "frames_inv ?q = frames_inv (pauseTimer s)"
      by (rule frames_inv_cong)
        (simp_all add: load_target_def Let_def split: option.splits)
    with frames_inv_pauseTimer[OF a] have "frames_inv (updateDisplay 0 ?q)"
      by (intro frames_inv_updateDisplay) simp
    then show ?thesis
      by (simp add: step_def SetMode setMode_eq[OF False] frames_inv_def)
  qed
next
  case ToggleMode
  assume a: "frames_inv s"
  let ?m = "if mode s = MODE_STOPWATCH then MODE_COUNTDOWN else MODE_STOPWATCH"
  have ne: "mode s \<noteq> ?m" by (cases "mode s") simp_all
  let ?q = "(if ?m = MODE_COUNTDOWN
          then load_target ((pauseTimer s)
                 \<lparr> mode := ?m, elapsedMs := 0, countdownCompleted := False \<rparr>)
          else (pauseTimer s)
                 \<lparr> mode := ?m, elapsedMs := 0, countdownCompleted := False \<rparr>)
         \<lparr> storedMode := Some ?m \<rparr>"
  have "frames_inv ?q = frames_inv (pauseTimer s)"
    by (rule frames_inv_cong)
      (simp_all add: load_target_def Let_def split: option.splits)
  with frames_inv_pauseTimer[OF a] have "frames_inv (updateDisplay 0 ?q)"
    by (intro frames_inv_updateDisplay) simp
  then show ?thesis
    unfolding step_def ToggleMode toggleMode_def event.case setMode_eq[OF ne]
    by (simp add: frames_inv_def)
next
  case EnterEditMode
  assume a: "frames_inv s"
  have "frames_inv (enterEditMode s) = frames_inv (if isEditing s then s else pauseTimer (s\<lparr>isEditing := True\<rparr>))"
    by (rule frames_inv_cong) (simp_all add: enterEditMode_def Let_def pauseTimer_eq)
  moreover have "frames_inv (pauseTimer (s\<lparr>isEditing := True\<rparr>))"
    by (rule frames_inv_pauseTimer) (use a in \<open>simp add: frames_inv_def\<close>)
  ultimately show ?thesis using a by (simp add: step_def EnterEditMode)
next
  case (EditorInput v)
  assume "frames_inv s" then show ?thesis by (simp add: step_def EditorInput frames_inv_def)
next
  case (ExitEditMode save)
  assume a: "frames_inv s"
  show ?thesis
  proof (cases "isEditing s")
    case False
    with a show ?thesis by (simp add: step_def ExitEditMode exitEditMode_def)
  next
    case True
    define s2 where "s2 = (if save then
                     (case parseTime (timeEditorValue (s\<lparr> isEditing := False \<rparr>)) of
                        Some ms \<Rightarrow>
                          (if mode (s\<lparr> isEditing := False \<rparr>) = MODE_COUNTDOWN
                           then (s\<lparr> isEditing := False \<rparr>)\<lparr> countdownTargetMs := ms, elapsedMs := 0,
                                     storedCountdown := Some (String_of ms) \<rparr>
                           else (s\<lparr> isEditing := False \<rparr>)\<lparr> elapsedMs := ms \<rparr>)
                      | None \<Rightarrow> s\<lparr> isEditing := False \<rparr>)
                   else s\<lparr> isEditing := False \<rparr>)"
    have "frames_inv s2 = frames_inv s"
      by (rule frames_inv_cong) (simp_all add: s2_def split: option.splits)
    with a have "frames_inv (updateDisplay (elapsedMs s2) s2)"
      by (intro frames_inv_updateDisplay) simp
    moreover have "exitEditMode save s = updateDisplay (elapsedMs s2) s2"
      using True by (simp add: exitEditMode_def Let_def s2_def)
    ultimately show ?thesis by (simp add: step_def ExitEditMode)
  qed
next
  case ToggleMute
  assume "frames_inv s" then show ?thesis by (simp add: step_def ToggleMute toggleMute_def frames_inv_def)
next
  case (WorkerMessage m)
  assume a: "frames_inv s"
  show ?thesis
  proof (cases m)
    case (Started e)
    have "frames_inv (startRenderLoop (s\<lparr>running := True, elapsedMs := e\<rparr>))"
      by (rule frames_inv_start) (use a in \<open>simp add: frames_inv_def\<close>)
    then show ?thesis by (simp add: step_def WorkerMessage Started onWorkerMessage_def)
  next
    case (Paused e)
    have "frames_inv (updateDisplay e (stopRenderLoop (s\<lparr>running := False, elapsedMs := e\<rparr>)))"
      by (intro frames_inv_updateDisplay frames_inv_stop) (use a in \<open>simp add: frames_inv_def\<close>)
    then show ?thesis by (simp add: step_def WorkerMessage Paused onWorkerMessage_def)
  next
    case (ResetDone e)
    have "frames_inv (updateDisplay 0 (stopRenderLoop
        (s\<lparr>running := False, elapsedMs := 0, countdownCompleted := False\<rparr>)))"
      by (intro frames_inv_updateDisplay frames_inv_stop) (use a in \<open>simp add: frames_inv_def\<close>)
    then show ?thesis by (simp add: step_def WorkerMessage ResetDone onWorkerMessage_def)
  qed (use a in \<open>simp_all add: step_def WorkerMessage onWorkerMessage_def frames_inv_def\<close>)
next
  case WorkerError
  assume "frames_inv s" then show ?thesis
    by (simp add: step_def WorkerError fallbackToMainThread_def frames_inv_def)
next
  case (FallbackInterval i now)
  assume "frames_inv s" then show ?thesis
    by (simp add: step_def FallbackInterval fallbackTick_def frames_inv_def)
next
  case (VisibilityChange h)
  assume a: "frames_inv s"
  then show ?thesis
    by (simp add: step_def VisibilityChange onVisibilityChange_def frames_inv_stop
        frames_inv_start frames_inv_updateDisplay)
qed

lemma frames_inv_run: "frames_inv s \<Longrightarrow> frames_inv (run evs s)"
  by (induction evs arbitrary: s) (simp_all add: frames_inv_step)

lemma frames_inv_reachable: "frames_inv (run evs initial_state)"
  by (rule frames_inv_run) (simp add: frames_inv_def initial_state_def)

subsection \<open>Completion at a display update, and edits of a stopped session\<close>

text \<open>
  When a display update finds the remaining time at zero while the session is running
  with the completed flag clear, it sends the completion event and its effects once,
  sets the flag and pauses the clock; no sequence of events without a reset, a start or
  a mode change sends it again or clears the flag, and those events clear it.
\<close>

lemma completion_at_display_update:
  assumes "mode s = MODE_COUNTDOWN" and "running s" and "\<not> countdownCompleted s"
    and "countdownTargetMs s - ms \<le> 0"
    and "list_all (\<lambda>ev. \<not> clears_flag ev) evs"
  shows "completions (updateDisplay ms s) = completions s + 1
       \<and> countdownCompleted (updateDisplay ms s)
       \<and> effects (updateDisplay ms s) = effects s @ [Announce ''Countdown complete'', Pulsing]
             @ (if muted s then [] else [Beep, Vibrate [200, 100, 200]])
       \<and> (if workerFallback s
           then \<not> running (updateDisplay ms s) \<and> fallbackInterval (updateDisplay ms s) = None
           else outbox (updateDisplay ms s) = outbox s @ [MsgPause]
              \<and> \<not> running (onWorkerMessage (Paused e) (updateDisplay ms s))
              \<and> completions (onWorkerMessage (Paused e) (updateDisplay ms s)) = completions s + 1)
       \<and> completions (run evs (updateDisplay ms s)) = completions s + 1
       \<and> countdownCompleted (run evs (updateDisplay ms s))
       \<and> (\<not> running t \<longrightarrow> \<not> countdownCompleted (startTimer now t))
       \<and> \<not> countdownCompleted (onWorkerMessage (ResetDone e') t)
       \<and> (workerFallback t \<longrightarrow> \<not> countdownCompleted (resetTimer t))
       \<and> (mode t \<noteq> m \<and> 0 \<le> countdownTargetMs t \<longrightarrow>
             \<not> countdownCompleted (setMode m t))"
proof -
  note u = updateDisplay_completes[OF assms(1) assms(4) assms(2) assms(3)]
  note r = run_completed[OF u(1) assms(5)]
  note p = paused_ack_stops[OF u(1), of e]
  have 1: "completions (run evs (updateDisplay ms s)) = completions s + 1"
    using r u(3) by (simp add: completions_def)
  have 2: "completions (onWorkerMessage (Paused e) (updateDisplay ms s)) = completions s + 1"
    using p u(3) by (simp add: completions_def)
  have 3: "\<not> running t \<longrightarrow> \<not> countdownCompleted (startTimer now t)"
    "\<not> countdownCompleted (onWorkerMessage (ResetDone e') t)"
    "workerFallback t \<longrightarrow> \<not> countdownCompleted (resetTimer t)"
    "mode t \<noteq> m \<and> 0 \<le> countdownTargetMs t \<longrightarrow> \<not> countdownCompleted (setMode m t)"
    using startTimer_clears ResetDone_clears resetTimer_fallback_clears setMode_clears
    by blast+
  have 4: "completions (updateDisplay ms s) = completions s + 1
       \<and> countdownCompleted (updateDisplay ms s)
       \<and> effects (updateDisplay ms s) = effects s @ [Announce ''Countdown complete'', Pulsing]
             @ (if muted s then [] else [Beep, Vibrate [200, 100, 200]])
       \<and> (if workerFallback s
           then \<not> running (updateDisplay ms s) \<and> fallbackInterval (updateDisplay ms s) = None
           else outbox (updateDisplay ms s) = outbox s @ [MsgPause]
              \<and> \<not> running (onWorkerMessage (Paused e) (updateDisplay ms s))
              \<and> completions (onWorkerMessage (Paused e) (updateDisplay ms s)) = completions s + 1)
       \<and> completions (run evs (updateDisplay ms s)) = completions s + 1
       \<and> countdownCompleted (run evs (updateDisplay ms s))"
    using u(1) u(2) u(3) u(4) u(5) u(6) r p 1 2 by simp
  from 3 4 show ?thesis by blast
qed

lemma completion_at_display_update_example:
  "completions (updateDisplay 5003
      (initial_state\<lparr> mode := MODE_COUNTDOWN, running := True, countdownTargetMs := 5000 \<rparr>)) = 1
   \<and> outbox (updateDisplay 5003
      (initial_state\<lparr> mode := MODE_COUNTDOWN, running := True, countdownTargetMs := 5000 \<rparr>))
        = [MsgPause]
   \<and> completions (run [WorkerMessage (Tick 5010), Frame 0, WorkerMessage (Paused 5011), PauseTimer,
        VisibilityChange False, ExitEditMode True]
        (updateDisplay 5003
          (initial_state\<lparr> mode := MODE_COUNTDOWN, running := True, countdownTargetMs := 5000 \<rparr>))) = 1"
  using completion_at_display_update[of
      "initial_state\<lparr> mode := MODE_COUNTDOWN, running := True, countdownTargetMs := 5000 \<rparr>"
      5003
      "[WorkerMessage (Tick 5010), Frame 0, WorkerMessage (Paused 5011), PauseTimer,
        VisibilityChange False, ExitEditMode True]" 5011]
  by (simp add: initial_state_def completions_def)

text \<open>
  A time edit submitted while the session is not running: rejected input changes none of
  the five session fields, accepted input changes what its mode says. Entering edit mode
  calls \<open>pauseTimer\<close> first.
\<close>

lemma edit_while_stopped_frame:
  assumes "isEditing s" and "\<not> running s" and "\<not> isEditing t"
  shows "(parseTime (timeEditorValue s) = None \<longrightarrow> session (exitEditMode True s) = session s)
       \<and> (\<forall>ms. parseTime (timeEditorValue s) = Some ms \<and> mode s = MODE_STOPWATCH \<longrightarrow>
             session (exitEditMode True s)
               = (mode s, running s, ms, countdownTargetMs s, countdownCompleted s))
       \<and> (\<forall>ms. parseTime (timeEditorValue s) = Some ms \<and> mode s = MODE_COUNTDOWN \<longrightarrow>
             session (exitEditMode True s) = (mode s, running s, 0, ms, countdownCompleted s))
       \<and> isEditing (enterEditMode t)
       \<and> (workerFallback t \<longrightarrow> \<not> running (enterEditMode t))
       \<and> (\<not> workerFallback t \<and> running t \<longrightarrow>
             outbox (enterEditMode t) = outbox t @ [MsgPause])
       \<and> \<not> running (onWorkerMessage (Paused e) (enterEditMode t))"
  using exitEditMode_rejected(1)[OF assms(1,2)] exitEditMode_stopwatch[OF assms(1,2)]
    exitEditMode_countdown(1)[OF assms(1,2)] enterEditMode_pauses(1-4)[OF assms(3)]
  by blast

lemma edit_while_stopped_frame_example:
  "isEditing (run [EnterEditMode, EditorInput ''01:02:03.45''] initial_state)
   \<and> \<not> running (run [EnterEditMode, EditorInput ''01:02:03.45''] initial_state)
   \<and> session (exitEditMode True (run [EnterEditMode, EditorInput ''01:02:03.45''] initial_state))
        = (MODE_STOPWATCH, False, 3723450, 0, False)
   \<and> session (exitEditMode True (run [EnterEditMode, EditorInput ''1:60:00.00''] initial_state))
        = session initial_state
   \<and> outbox (enterEditMode (fst started_system)) = [MsgPause]"
proof -
  let ?s = "run [EnterEditMode, EditorInput ''01:02:03.45''] initial_state"
  let ?r = "run [EnterEditMode, EditorInput ''1:60:00.00''] initial_state"
  have s: "isEditing ?s" "\<not> running ?s" "mode ?s = MODE_STOPWATCH"
    "timeEditorValue ?s = ''01:02:03.45''" "countdownTargetMs ?s = 0" "\<not> countdownCompleted ?s"
    by (simp_all add: ctl_eval Let_def)
  have r: "isEditing ?r" "\<not> running ?r" "timeEditorValue ?r = ''1:60:00.00''"
    "session ?r = session initial_state"
    by (simp_all add: ctl_eval Let_def session_def)
  have p: "parseTime ''01:02:03.45'' = Some 3723450" "parseTime ''1:60:00.00'' = None"
    by (simp_all add: codec_eval)
  have t: "\<not> isEditing (fst started_system)" "\<not> workerFallback (fst started_system)"
    "running (fst started_system)" "outbox (fst started_system) = []"
    by (simp_all add: started_system_state)
  from edit_while_stopped_frame[OF s(1,2) t(1)] edit_while_stopped_frame[OF r(1,2) t(1)] s r p t
  show ?thesis by simp
qed

lemma pauseTimer_intervals:
  "intervals (pauseTimer s) =
     (if running s \<and> workerFallback s
      then (case fallbackInterval s of None \<Rightarrow> intervals s
            | Some i \<Rightarrow> removeAll i (intervals s))
      else intervals s)"
  by (simp add: pauseTimer_eq helper_defs split: option.splits)

lemma completion_stops_fallback_interval:
  assumes "mode s = MODE_COUNTDOWN" "countdownTargetMs s - ms \<le> 0" "running s"
    "\<not> countdownCompleted s" "workerFallback s" "fallbackInterval s = Some i"
  shows "intervals (updateDisplay ms s) = removeAll i (intervals s)"
  using assms
  by (simp add: updateDisplay_fires handleCountdownComplete.simps announce_def Let_def
      pauseTimer_intervals showTime_def)

lemma enterEditMode_stops_fallback_interval:
  assumes "\<not> isEditing t" "running t" "workerFallback t" "fallbackInterval t = Some i"
  shows "intervals (enterEditMode t) = removeAll i (intervals t)"
  using assms by (simp add: enterEditMode_def Let_def pauseTimer_intervals)

subsection \<open>The example sessions\<close>

lemmas digits_eval = String_of_def padStart_def digits.simps[of 5000] digits.simps[of 500]
  digits.simps[of 50] digits.simps[of 1000] digits.simps[of 100] digits.simps[of 10]
  digits.simps[of 3000] digits.simps[of 300] digits.simps[of 30] digits_lt10

lemma fallback_first_run_state:
  "run fallback_first_run initial_state =
   \<lparr>mode = MODE_COUNTDOWN, running = False, elapsedMs = 1000,
    countdownTargetMs = 1000, countdownCompleted = True, muted = False,
    animationFrameId = Some 2, workerFallback = True, fallbackStartTime = 0,
    fallbackAccumulated = 1000, fallbackInterval = None, isEditing = False,
    frames = [], intervals = [], nextHandle = 3, outbox = [],
    effects = [Announce ''Countdown complete'', Pulsing, Beep, Vibrate [200, 100, 200]],
    timeMain = ''00:00:00'', timeMsText = ''.00'',
    timeEditorValue = ''00:00:01.00'', startPauseBtn = ''Start'',
    storedCountdown = Some ''1000'', storedMode = Some MODE_COUNTDOWN\<rparr>"
  by (simp add: fallback_first_run_def ctl_eval codec_eval format_eval digits_eval)

lemma fallback_second_run_state:
  "run fallback_second_run initial_state =
   \<lparr>mode = MODE_COUNTDOWN, running = True, elapsedMs = 3500,
    countdownTargetMs = 3000, countdownCompleted = False, muted = False,
    animationFrameId = Some 2, workerFallback = True,
    fallbackStartTime = 5000, fallbackAccumulated = 0,
    fallbackInterval = Some 3, isEditing = False, frames = [],
    intervals = [3], nextHandle = 4, outbox = [],
    effects = [Announce ''Countdown complete'', Pulsing, Beep, Vibrate [200, 100, 200]],
    timeMain = ''00:00:03'', timeMsText = ''.00'',
    timeEditorValue = ''00:00:03.00'', startPauseBtn = ''Pause'',
    storedCountdown = Some ''3000'', storedMode = Some MODE_COUNTDOWN\<rparr>"
  unfolding fallback_second_run_def run_append fallback_first_run_state
  by (simp add: edit_and_restart_def ctl_eval codec_eval format_eval digits_eval)

lemma worker_first_run_state:
  "run worker_first_run initial_state =
   \<lparr>mode = MODE_COUNTDOWN, running = False, elapsedMs = 1003,
    countdownTargetMs = 1000, countdownCompleted = True, muted = False,
    animationFrameId = None, workerFallback = False, fallbackStartTime = 0,
    fallbackAccumulated = 0, fallbackInterval = None, isEditing = False,
    frames = [], intervals = [], nextHandle = 3,
    outbox = [MsgStart (Some (Payload (Some 0))), MsgPause],
    effects = [Announce ''Countdown complete'', Pulsing, Beep, Vibrate [200, 100, 200]],
    timeMain = ''00:00:00'', timeMsText = ''.00'',
    timeEditorValue = ''00:00:01.00'', startPauseBtn = ''Start'',
    storedCountdown = Some ''1000'', storedMode = Some MODE_COUNTDOWN\<rparr>"
  by (simp add: worker_first_run_def ctl_eval codec_eval format_eval digits_eval)

lemma worker_second_run_completes:
  "completions (run worker_first_run initial_state) = 1
   \<and> completions (run worker_second_run initial_state) = 2"
  unfolding worker_second_run_def run_append worker_first_run_state
  by (simp add: edit_and_restart_def ctl_eval codec_eval format_eval digits_eval completions_def)

lemma no_frames_quiet:
  assumes "frames s = []" "list_all autonomous evs"
  shows "frames (run evs s) = [] \<and> effects (run evs s) = effects s
       \<and> countdownCompleted (run evs s) = countdownCompleted s
       \<and> running (run evs s) = running s"
  using assms
proof (induction evs arbitrary: s)
  case Nil
  then show ?case by simp
next
  case (Cons ev evs)
  from Cons.prems have a: "autonomous ev" and r: "list_all autonomous evs" by simp_all
  have st: "frames (step ev s) = [] \<and> effects (step ev s) = effects s
       \<and> countdownCompleted (step ev s) = countdownCompleted s
       \<and> running (step ev s) = running s"
    using a Cons.prems(1) by (cases ev) (simp_all add: step_def fallbackTick_def)
  with Cons.IH[OF _ r, of "step ev s"] show ?case by simp
qed

lemma edit_during_countdown_state:
  "run edit_during_countdown initial_state =
   \<lparr>mode = MODE_COUNTDOWN, running = True, elapsedMs = 6000,
    countdownTargetMs = 5000, countdownCompleted = False, muted = False,
    animationFrameId = Some 0, workerFallback = False,
    fallbackStartTime = 0, fallbackAccumulated = 0, fallbackInterval = None,
    isEditing = True, frames = [0], intervals = [], nextHandle = 1,
    outbox = [MsgStart (Some (Payload (Some 0))), MsgPause], effects = [],
    timeMain = ''00:00:05'', timeMsText = ''.00'',
    timeEditorValue = ''abc'', startPauseBtn = ''Start'',
    storedCountdown = Some ''5000'', storedMode = Some MODE_COUNTDOWN\<rparr>"
  by (simp add: edit_during_countdown_def ctl_eval codec_eval format_eval digits_eval)

lemma edit_during_stopwatch_state:
  "run edit_during_stopwatch (fst started_system) =
   \<lparr>mode = MODE_STOPWATCH, running = True, elapsedMs = 12345,
    countdownTargetMs = 0, countdownCompleted = False, muted = False,
    animationFrameId = Some 0, workerFallback = False,
    fallbackStartTime = 0, fallbackAccumulated = 0, fallbackInterval = None,
    isEditing = True, frames = [0], intervals = [], nextHandle = 1,
    outbox = [MsgPause], effects = [], timeMain = [], timeMsText = [],
    timeEditorValue = ''00:00:05.00'',
    startPauseBtn = ''Start'', storedCountdown = None, storedMode = None\<rparr>"
  by (simp add: edit_during_stopwatch_def started_system_state ctl_eval)

section \<open>The claims about the session\<close>

text \<open>
  Claim C1: from every prior state (Running, Paused or Completed, in either mode, on
  either clock) \<open>reset\<close> leaves the session idle, not running, with \<open>elapsedMs = 0\<close>
  and the completed flag cleared, and does not resume a run that was in progress.
  On the fallback clock this holds (\<open>resetTimer_fallback_idle\<close>), and on the isolated
  clock when the worker is not running (\<open>resetTimer_worker_stopped_idle\<close>). On the
  isolated clock during a run it does not: the worker answers \<open>reset\<close> and restarts
  from zero, posting \<open>started\<close>, so once both answers are handled the controller is
  running again, while the start/pause button reads Start
  (\<open>resetTimer_worker_running_restarts\<close>). The theorem evaluates this for the session
  started at time 0 on the isolated clock and reset at 12350.
\<close>

theorem reset_while_running_restarts:
  "fst started_system
      = (run [StartTimer 0, WorkerMessage (Started 0)] initial_state)\<lparr> outbox := [] \<rparr>
   \<and> running (fst started_system) \<and> w_running (snd started_system)
   \<and> running (fst (exchange 12350 (resetTimer (fst started_system), snd started_system)))
   \<and> w_running (snd (exchange 12350 (resetTimer (fst started_system), snd started_system)))
   \<and> elapsedMs (fst (exchange 12350 (resetTimer (fst started_system), snd started_system))) = 0
   \<and> startPauseBtn (fst (exchange 12350 (resetTimer (fst started_system), snd started_system)))
        = ''Start''"
proof -
  have a: "\<not> workerFallback (fst started_system)" "outbox (fst started_system) = []"
    "w_running (snd started_system)" "running (fst started_system)"
    by (simp_all add: started_system_state)
  have b: "fst started_system
      = (run [StartTimer 0, WorkerMessage (Started 0)] initial_state)\<lparr> outbox := [] \<rparr>"
    by (simp add: started_system_state ctl_eval)
  from resetTimer_worker_running_restarts[OF a(1-3), of 12350] a b show ?thesis by simp
qed

text \<open>
  Claim C2: every Running-to-zero transition in Countdown mode fires the completion
  event and its effects exactly once; the transition sets the completed flag, which
  blocks a second firing until a reset, a start or a mode change clears it, and
  completing pauses the clock. At a display update that finds the remaining time at zero
  this is what the code does (\<open>completion_at_display_update\<close>), and on the isolated
  clock a second countdown completes as the first did (\<open>worker_second_run_completes\<close>).
  On the fallback clock the second one does not: \<open>renderLoop\<close> requests the next frame
  after the completion has already stopped the render loop, that frame finds the session
  stopped, and \<open>animationFrameId\<close> keeps its handle, so \<open>startRenderLoop\<close> requests
  no frame at the next start. The theorem evaluates \<open>fallback_second_run\<close>: a one-second
  countdown completes, the target is edited to three seconds and the countdown started
  again. At 3500 ms the session is running past its target with the flag clear, no frame
  callback is registered, the only completion sent is the first run's, and further
  interval and frame callbacks send none (\<open>no_frames_quiet\<close> for all of them).
\<close>

theorem second_countdown_never_completes:
  "completions (run fallback_first_run initial_state) = 1
   \<and> countdownCompleted (run fallback_first_run initial_state)
   \<and> mode (run fallback_second_run initial_state) = MODE_COUNTDOWN
   \<and> running (run fallback_second_run initial_state)
   \<and> workerFallback (run fallback_second_run initial_state)
   \<and> \<not> countdownCompleted (run fallback_second_run initial_state)
   \<and> countdownTargetMs (run fallback_second_run initial_state) = 3000
   \<and> elapsedMs (run fallback_second_run initial_state) = 3500
   \<and> frames (run fallback_second_run initial_state) = []
   \<and> completions (run fallback_second_run initial_state) = 1
   \<and> completions (run [FallbackInterval 3 9000, Frame 2, Frame 3, FallbackInterval 3 60000]
          (run fallback_second_run initial_state)) = 1"
proof -
  have "list_all autonomous [FallbackInterval 3 9000, Frame 2, Frame 3, FallbackInterval 3 60000]"
    by simp
  from no_frames_quiet[OF _ this, of "run fallback_second_run initial_state"]
  have "effects (run [FallbackInterval 3 9000, Frame 2, Frame 3, FallbackInterval 3 60000]
          (run fallback_second_run initial_state)) = effects (run fallback_second_run initial_state)"
    by (simp add: fallback_second_run_state)
  then have "completions (run [FallbackInterval 3 9000, Frame 2, Frame 3, FallbackInterval 3 60000]
          (run fallback_second_run initial_state)) = completions (run fallback_second_run initial_state)"
    by (simp only: completions_def)
  then show ?thesis
    by (simp add: fallback_second_run_state fallback_first_run_state completions_def)
qed

text \<open>
  Claim C3, as stated: while running in Countdown mode the completion check is made on
  every incoming elapsed value, whether or not rendering is suspended. It fails: a tick
  only stores the elapsed value. After the events \<open>hidden_overrun\<close> (a five-second
  countdown, started, then hidden, then a tick at 6000 ms) the session is still running,
  past its target, with the completed flag clear and no effect sent.
\<close>

theorem tick_without_check_counterexample:
  "running (run hidden_overrun initial_state)
   \<and> mode (run hidden_overrun initial_state) = MODE_COUNTDOWN
   \<and> countdownTargetMs (run hidden_overrun initial_state)
        - elapsedMs (run hidden_overrun initial_state) \<le> 0
   \<and> \<not> countdownCompleted (run hidden_overrun initial_state)
   \<and> effects (run hidden_overrun initial_state) = []"
  by (simp add: hidden_overrun_state)

text \<open>
  Claim C3, amended: while running in Countdown mode a tick from the clock only stores
  the elapsed value; the completion check is part of the display update, which the
  render loop makes on every frame while running. So while rendering is suspended
  (surface hidden) no completion fires, however many ticks arrive and however far the
  elapsed value passes the target, and no frame callback is left to run; completion
  fires on the first frame after rendering resumes, and on any frame of a visible
  running session whose elapsed value has reached the target. The hypothesis
  \<open>frames_inv\<close> holds of every reachable state.
\<close>

theorem completion_checked_on_frames:
  assumes "mode s = MODE_COUNTDOWN" and "running s" and "\<not> countdownCompleted s"
    and "frames_inv s"
    and "h = run (VisibilityChange True # map (\<lambda>e. WorkerMessage (Tick e)) es) s"
  shows "effects (step (WorkerMessage (Tick e)) s) = effects s
       \<and> \<not> countdownCompleted (step (WorkerMessage (Tick e)) s)
       \<and> elapsedMs (step (WorkerMessage (Tick e)) s) = e
       \<and> (i \<in> set (frames s) \<and> countdownTargetMs s - elapsedMs s \<le> 0 \<longrightarrow>
             countdownCompleted (step (Frame i) s)
             \<and> completions (step (Frame i) s) = completions s + 1)
       \<and> effects h = effects s \<and> \<not> countdownCompleted h \<and> running h
       \<and> elapsedMs h = last (elapsedMs s # es)
       \<and> frames h = [] \<and> step (Frame i) h = h
       \<and> (countdownTargetMs s - elapsedMs h \<le> 0 \<longrightarrow>
             frames (step (VisibilityChange False) h) = [nextHandle h]
             \<and> countdownCompleted
                 (step (Frame (nextHandle h)) (step (VisibilityChange False) h))
             \<and> completions (step (Frame (nextHandle h)) (step (VisibilityChange False) h))
                 = completions s + 1)"
proof -
  have h: "h = (stopRenderLoop s)\<lparr> elapsedMs := last (elapsedMs s # es) \<rparr>"
    using assms(5) by (simp only: hide_then_ticks)
  have fr: "frames h = []" and af: "animationFrameId h = None"
    using assms(4) unfolding h
    by (auto simp: frames_inv_def stopRenderLoop_def removeAll_only split: option.splits)
  have hs: "effects h = effects s" "\<not> countdownCompleted h" "running h"
    "mode h = MODE_COUNTDOWN" "countdownTargetMs h = countdownTargetMs s"
    "elapsedMs h = last (elapsedMs s # es)"
    using assms(1-3) unfolding h by (simp_all add: stopRenderLoop_def split: option.splits)
  have nf: "step (Frame i) h = h"
    by (simp add: step_def fr)
  let ?v = "step (VisibilityChange False) h"
  have v: "?v = h\<lparr> animationFrameId := Some (nextHandle h), frames := [nextHandle h],
                   nextHandle := Suc (nextHandle h) \<rparr>"
    using hs(3) fr af by (simp add: step_def onVisibilityChange_def startRenderLoop_def)
  have vis: "countdownTargetMs s - elapsedMs h \<le> 0 \<Longrightarrow>
       frames ?v = [nextHandle h]
       \<and> countdownCompleted (step (Frame (nextHandle h)) ?v)
       \<and> completions (step (Frame (nextHandle h)) ?v) = completions s + 1"
  proof -
    assume le: "countdownTargetMs s - elapsedMs h \<le> 0"
    have pre: "mode ?v = MODE_COUNTDOWN" "running ?v" "\<not> countdownCompleted ?v"
      "countdownTargetMs ?v - elapsedMs ?v \<le> 0" "nextHandle h \<in> set (frames ?v)"
      using hs le unfolding v by simp_all
    have "completions ?v = completions s"
      unfolding v using hs(1) by (simp add: completions_def)
    with frame_fires_completion[OF pre] show ?thesis
      by (simp add: v)
  qed
  have t: "effects (step (WorkerMessage (Tick e)) s) = effects s
       \<and> \<not> countdownCompleted (step (WorkerMessage (Tick e)) s)
       \<and> elapsedMs (step (WorkerMessage (Tick e)) s) = e"
    using assms(3) by (simp add: step_def onWorkerMessage_def)
  have f: "i \<in> set (frames s) \<and> countdownTargetMs s - elapsedMs s \<le> 0 \<longrightarrow>
             countdownCompleted (step (Frame i) s)
             \<and> completions (step (Frame i) s) = completions s + 1"
    using frame_fires_completion[OF assms(1-3)] by blast
  from t f hs(1,2,3,6) fr nf vis show ?thesis by blast
qed

theorem completion_checked_on_frames_witness:
  "effects (run hidden_overrun initial_state) = []
   \<and> \<not> countdownCompleted (run hidden_overrun initial_state)
   \<and> running (run hidden_overrun initial_state)
   \<and> frames (run hidden_overrun initial_state) = []
   \<and> completions (step (Frame 1) (step (VisibilityChange False) (run hidden_overrun initial_state)))
        = 1"
proof -
  define S where "S = run [SetMode MODE_COUNTDOWN, EnterEditMode, EditorInput ''00:00:05.00'',
     ExitEditMode True, StartTimer 0, WorkerMessage (Started 0)] initial_state"
  have Sv: "S = \<lparr>mode = MODE_COUNTDOWN, running = True, elapsedMs = 0,
    countdownTargetMs = 5000, countdownCompleted = False, muted = False,
    animationFrameId = Some 0, workerFallback = False, fallbackStartTime = 0,
    fallbackAccumulated = 0, fallbackInterval = None, isEditing = False,
    frames = [0], intervals = [], nextHandle = 1,
    outbox = [MsgStart (Some (Payload (Some 0)))], effects = [],
    timeMain = ''00:00:05'', timeMsText = ''.00'',
    timeEditorValue = ''00:00:05.00'', startPauseBtn = ''Pause'',
    storedCountdown = Some ''5000'', storedMode = Some MODE_COUNTDOWN\<rparr>"
    unfolding S_def
    by (simp add: ctl_eval codec_eval format_eval padStart_def String_of_def
      digits.simps[of 5000] digits.simps[of 500] digits.simps[of 50] digits_lt10)
  have h: "run hidden_overrun initial_state
     = run (VisibilityChange True # map (\<lambda>e. WorkerMessage (Tick e)) [6000]) S"
    unfolding hidden_overrun_def S_def by (simp only: run.simps list.map)
  have a: "mode S = MODE_COUNTDOWN" "running S" "\<not> countdownCompleted S"
    "frames_inv S"
    unfolding Sv by (simp_all add: frames_inv_def)
  note T = completion_checked_on_frames[OF a h, of 6000 0]
  have le: "countdownTargetMs S - elapsedMs (run hidden_overrun initial_state) \<le> 0"
    by (simp add: Sv hidden_overrun_state)
  have nh: "nextHandle (run hidden_overrun initial_state) = 1"
    by (simp add: hidden_overrun_state)
  have cS: "completions S = 0"
    by (simp add: Sv completions_def)
  from T le have "completions (step (Frame (nextHandle (run hidden_overrun initial_state)))
        (step (VisibilityChange False) (run hidden_overrun initial_state))) = completions S + 1"
    by blast
  then have 1: "completions (step (Frame 1)
        (step (VisibilityChange False) (run hidden_overrun initial_state))) = 1"
    unfolding nh cS by simp
  have 2: "effects (run hidden_overrun initial_state) = []"
    "\<not> countdownCompleted (run hidden_overrun initial_state)"
    "running (run hidden_overrun initial_state)"
    "frames (run hidden_overrun initial_state) = []"
    by (simp_all add: hidden_overrun_state)
  from 1 2 show ?thesis by blast
qed

text \<open>
  Claim C4: a runtime fault of the isolated context during a run never leaves the session
  running with no active clock; it forces a transition to Paused, the last elapsed value
  replayed into the fallback clock. The error listener only sets \<open>workerFallback\<close>:
  after the events \<open>fault_while_running\<close> the session is still running, now on the
  fallback clock, which has no interval timer and a base of 0, and nothing was posted
  to stop the worker.
\<close>

theorem worker_fault_leaves_running:
  "running (run fault_while_running initial_state)
   \<and> workerFallback (run fault_while_running initial_state)
   \<and> fallbackInterval (run fault_while_running initial_state) = None
   \<and> intervals (run fault_while_running initial_state) = []
   \<and> fallbackAccumulated (run fault_while_running initial_state) = 0
   \<and> elapsedMs (run fault_while_running initial_state) = 12345
   \<and> outbox (run fault_while_running initial_state) = [MsgStart (Some (Payload (Some 0)))]"
  by (simp add: fault_while_running_def run_append running_on_worker_state step_def
      fallbackToMainThread_def)

text \<open>
  Claim C7: \<open>setMode\<close> with a new mode during a run first pauses, then sets
  \<open>elapsedMs\<close> to 0 and clears the completed flag, and on entering Countdown loads the
  stored target or takes five minutes. On the fallback clock, and for a session that is
  not running, this holds (\<open>setMode_session\<close>, \<open>setMode_fallback_pauses_first\<close>).
  On the isolated clock the pause is only requested: when \<open>setMode\<close> returns the
  session is still running, and the worker's \<open>paused\<close> message, handled afterwards,
  writes the elapsed value of the pause over the zero. The theorem evaluates this for
  the stopwatch started at time 0 and switched to Countdown at 12345.
\<close>

theorem setMode_while_running_on_worker:
  "running (fst started_system) \<and> mode (fst started_system) = MODE_STOPWATCH
   \<and> running (setMode MODE_COUNTDOWN (fst started_system))
   \<and> elapsedMs (setMode MODE_COUNTDOWN (fst started_system)) = 0
   \<and> outbox (setMode MODE_COUNTDOWN (fst started_system)) = [MsgPause]
   \<and> session (fst (exchange 12345 (setMode MODE_COUNTDOWN (fst started_system), snd started_system)))
        = (MODE_COUNTDOWN, False, 12345, 300000, False)"
proof -
  have a: "mode (fst started_system) \<noteq> MODE_COUNTDOWN" "0 \<le> countdownTargetMs (fst started_system)"
    "running (fst started_system)" "\<not> workerFallback (fst started_system)"
    "outbox (fst started_system) = []" "storedCountdown (fst started_system) = None"
    "countdownTargetMs (fst started_system) = 0" "mode (fst started_system) = MODE_STOPWATCH"
    by (simp_all add: started_system_state)
  note s = setMode_session[OF a(1,2)]
  have t: "target_after_load (fst started_system) = 300000"
    using a by (simp add: target_after_load_none)
  have se: "session (setMode MODE_COUNTDOWN (fst started_system))
      = (MODE_COUNTDOWN, True, 0, 300000, False)"
    using s(1) a t by simp
  have o: "outbox (setMode MODE_COUNTDOWN (fst started_system)) = [MsgPause]"
    using s(2) a by simp
  have w: "onmessage 12345 MsgPause (snd started_system)
      = ([Paused 12345], (snd started_system)\<lparr> w_running := False, accumulatedMs := 12345,
            w_intervals := [], tickInterval := None \<rparr>)"
    by (simp add: started_system_state worker_eval Let_def)
  have p: "session (onWorkerMessage (Paused e) x) = (mode x, False, e, countdownTargetMs x, countdownCompleted x)"
    for e x
    by (simp add: onWorkerMessage_def updateDisplay_quiet stopRenderLoop_def showTime_def Let_def
        session_def split: option.splits)
  have "session (fst (exchange 12345 (setMode MODE_COUNTDOWN (fst started_system), snd started_system)))
        = (MODE_COUNTDOWN, False, 12345, 300000, False)"
    using se by (simp add: exchange_def o w p) (simp add: session_def)
  with se o a show ?thesis by (simp add: session_def)
qed

text \<open>
  Claim C8: a submitted time edit that \<open>parseTime\<close> rejects changes none of \<open>mode\<close>,
  \<open>running\<close>, \<open>elapsedMs\<close>, \<open>countdownTargetMs\<close>, \<open>countdownCompleted\<close>; an
  accepted one overwrites only \<open>elapsedMs\<close> in Stopwatch mode, and the target, with
  \<open>elapsedMs\<close> set to 0, in Countdown mode; edits are made only while not running, an
  edit request during a run pausing first. For a session that is not running at the
  submission all of this holds (\<open>edit_while_stopped_frame\<close>), and on the fallback
  clock entering edit mode stops the run at once (\<open>enterEditMode_pauses\<close>,
  \<open>enterEditMode_stops_fallback_interval\<close>). On the isolated clock entering edit
  mode only posts \<open>pause\<close>, and the session is edited while running until the
  worker's \<open>paused\<close> message is handled. The theorem evaluates two such sessions: in
  \<open>edit_during_countdown\<close> the rejected input \<open>"abc"\<close> sets the completed flag and
  sends the completion event; in \<open>edit_during_stopwatch\<close> the accepted five seconds
  are written while running and then overwritten by the elapsed value of the pause.
\<close>

theorem edit_while_running_on_worker:
  "isEditing (run edit_during_countdown initial_state)
   \<and> running (run edit_during_countdown initial_state)
   \<and> parseTime (timeEditorValue (run edit_during_countdown initial_state)) = None
   \<and> session (run edit_during_countdown initial_state)
        = (MODE_COUNTDOWN, True, 6000, 5000, False)
   \<and> session (exitEditMode True (run edit_during_countdown initial_state))
        = (MODE_COUNTDOWN, True, 6000, 5000, True)
   \<and> completions (exitEditMode True (run edit_during_countdown initial_state)) = 1
   \<and> isEditing (run edit_during_stopwatch (fst started_system))
   \<and> running (run edit_during_stopwatch (fst started_system))
   \<and> parseTime (timeEditorValue (run edit_during_stopwatch (fst started_system))) = Some 5000
   \<and> session (exitEditMode True (run edit_during_stopwatch (fst started_system)))
        = (MODE_STOPWATCH, True, 5000, 0, False)
   \<and> session (fst (exchange 12400
          (exitEditMode True (run edit_during_stopwatch (fst started_system)),
           snd started_system)))
        = (MODE_STOPWATCH, False, 12400, 0, False)"
proof -
  have 1: "parseTime ''abc'' = None" "parseTime ''00:00:05.00'' = Some 5000"
    by (simp_all add: codec_eval)
  have 2: "session (exitEditMode True (run edit_during_countdown initial_state))
        = (MODE_COUNTDOWN, True, 6000, 5000, True)"
    "completions (exitEditMode True (run edit_during_countdown initial_state)) = 1"
    unfolding edit_during_countdown_state
    by (simp_all add: 1 session_def completions_def ctl_eval Let_def)
  have 3: "session (exitEditMode True (run edit_during_stopwatch (fst started_system)))
        = (MODE_STOPWATCH, True, 5000, 0, False)"
    unfolding edit_during_stopwatch_state
    by (simp add: 1 session_def ctl_eval Let_def)
  have 4: "session (fst (exchange 12400
          (exitEditMode True (run edit_during_stopwatch (fst started_system)),
           snd started_system)))
        = (MODE_STOPWATCH, False, 12400, 0, False)"
    unfolding edit_during_stopwatch_state
    by (simp add: 1 session_def exchange_def started_system_state ctl_eval worker_eval Let_def)
  show ?thesis
    using 2 3 4
    by (simp add: edit_during_countdown_state edit_during_stopwatch_state 1 session_def)
qed

end
